theory Spec2Isabelle
  imports Complex_Main "HOL-Library.Sublist" "HOL-Library.Log_Nat"
begin

section \<open>Dimension and sizing utilities (lib/image-utils.ts)\<close>

text \<open>
  Pixel counts, byte counts and the settings \<open>maxDimension\<close> and \<open>targetSize\<close> are
  natural numbers, quotients of them are rationals. The rounding of a quotient or a
  product to a double is explicit where a result depends on it: it is a parameter of
  \<open>calculateResizeDimensions\<close>, and it is \<open>binary64\<close> in the resize of the handler of
  \<open>/api/process-image\<close>, in \<open>formatFileSize\<close> and in the sum \<open>index + 1\<close> of
  \<open>generateProcessedFileName\<close>. The scale factor of the upscale paths
  is the exact quotient, which compares with 1 and with 4 as the double does while
  the pixel counts stay below \<open>2 ^ 50\<close>.
\<close>

record ImageDimensions =
  width :: nat
  height :: nat

record ResizeResult =
  dimensions :: ImageDimensions
  wasResized :: bool

text \<open>\<open>Math.round\<close>: the nearest integer, a tie going up.\<close>

definition Math_round :: "rat \<Rightarrow> int" where
  "Math_round x = \<lfloor>x + 1 / 2\<rfloor>"

text \<open>
  \<open>calculateResizeDimensions\<close>. The rounding of the quotient and of each product to a
  double is the parameter \<open>toDouble\<close>; with \<open>id\<close> the arithmetic is exact.
\<close>

definition calculateResizeDimensions ::
  "(rat \<Rightarrow> rat) \<Rightarrow> ImageDimensions \<Rightarrow> nat \<Rightarrow> ResizeResult" where
  "calculateResizeDimensions toDouble originalSize maxDimension =
     (let maxOriginal = max (width originalSize) (height originalSize) in
      if maxOriginal \<le> maxDimension
      then \<lparr>dimensions = originalSize, wasResized = False\<rparr>
      else
        let scaleFactor = toDouble (of_nat maxDimension / of_nat maxOriginal) in
        \<lparr>dimensions =
            \<lparr>width = nat (Math_round (toDouble (of_nat (width originalSize) * scaleFactor))),
             height = nat (Math_round (toDouble (of_nat (height originalSize) * scaleFactor)))\<rparr>,
         wasResized = True\<rparr>)"

text \<open>
  What is used of double-precision arithmetic: a result between \<open>2 ^ -64\<close> and \<open>2 ^ 64\<close>
  in absolute value is rounded with a relative error of at most \<open>2 ^ -53\<close>, as
  round-to-nearest in IEEE 754 binary64 does.
\<close>

definition roundsLikeDouble :: "(rat \<Rightarrow> rat) \<Rightarrow> bool" where
  "roundsLikeDouble toDouble \<longleftrightarrow>
     (\<forall>x. 1 / 2 ^ 64 \<le> \<bar>x\<bar> \<and> \<bar>x\<bar> \<le> 2 ^ 64 \<longrightarrow> \<bar>toDouble x - x\<bar> \<le> \<bar>x\<bar> / 2 ^ 53)"

subsection \<open>Rounding to a double\<close>

text \<open>
  The nearest integer, a tie going to the even one: the rounding of a significand.
\<close>

definition roundTiesToEven :: "rat \<Rightarrow> int" where
  "roundTiesToEven x =
     (let n = \<lfloor>x\<rfloor>; r = x - of_int n
      in if r < 1 / 2 then n else if 1 / 2 < r then n + 1 else if even n then n else n + 1)"

text \<open>
  The exponent \<open>e\<close> of the leading bit of \<open>x \<noteq> 0\<close>: \<open>2 ^ e \<le> |x| < 2 ^ (e + 1)\<close>. The
  difference of the bit lengths of numerator and denominator is \<open>e\<close> or \<open>e + 1\<close>.
\<close>

definition binaryExponent :: "rat \<Rightarrow> int" where
  "binaryExponent x =
     (let (p, q) = quotient_of \<bar>x\<bar>; c = bitlen p - bitlen q
      in if \<bar>x\<bar> < 2 powi c then c - 1 else c)"

text \<open>
  The double nearest to \<open>x\<close> (IEEE 754 binary64, round to nearest, ties to even): \<open>x\<close> is
  scaled to a significand of 53 bits, which is rounded to an integer. The exponent has
  no bounds here, so the overflow to \<open>Infinity\<close> and the shorter significands below
  \<open>2 ^ -1022\<close> are left out; neither occurs while the pixel counts, byte counts and
  settings stay below \<open>2 ^ 500\<close>.
\<close>

definition binary64 :: "rat \<Rightarrow> rat" where
  "binary64 x =
     (if x = 0 then 0
      else let e = binaryExponent x - 52
           in of_int (roundTiesToEven (x / 2 powi e)) * 2 powi e)"

subsection \<open>Decimal rendering of numbers\<close>

text \<open>A natural number in a template literal: its decimal digits.\<close>

definition digitChar :: "nat \<Rightarrow> char" where
  "digitChar d = ''0123456789'' ! d"

fun natString :: "nat \<Rightarrow> string" where
  "natString n =
     (if n < 10 then [digitChar n] else natString (n div 10) @ [digitChar (n mod 10)])"

declare natString.simps [simp del]

text \<open>
  An integer-valued double in a template literal. Up to \<open>2 ^ 53\<close> it is printed with all
  its digits. Beyond, the digits are those of the decimal with the fewest significant
  digits that still rounds to the double (the nearest such decimal when there are two),
  followed by zeros below \<open>10 ^ 21\<close> and written with an exponent from there on.
\<close>

function digitsOf :: "int \<Rightarrow> string" where
  "digitsOf v =
     (if v < 10 then [digitChar (nat v)] else digitsOf (v div 10) @ [digitChar (nat (v mod 10))])"
  by pat_completeness auto

termination
  by (relation "measure nat") auto

declare digitsOf.simps [simp del]

text \<open>
  The two decimals with \<open>k\<close> significant digits next to \<open>v\<close>, which has \<open>n\<close> digits, the
  nearer one first.
\<close>

definition candidates :: "int \<Rightarrow> nat \<Rightarrow> nat \<Rightarrow> int list" where
  "candidates v n k =
     (let u = 10 ^ (n - k); lo = (v div u) * u; hi = lo + u
      in if v - lo < hi - v \<or> (v - lo = hi - v \<and> even (v div u)) then [lo, hi] else [hi, lo])"

definition shortestDecimal :: "int \<Rightarrow> int" where
  "shortestDecimal v =
     (let n = length (digitsOf v)
      in case find (\<lambda>c. binary64 (of_int c) = of_int v)
                (concat (map (candidates v n) [1..<Suc n])) of
           Some c \<Rightarrow> c
         | None \<Rightarrow> v)"

definition exponentForm :: "string \<Rightarrow> string" where
  "exponentForm ds =
     (let significant = rev (dropWhile (\<lambda>c. c = CHR ''0'') (rev ds))
      in hd significant # (if tl significant = [] then [] else CHR ''.'' # tl significant)
         @ ''e+'' @ digitsOf (int (length ds) - 1))"

definition naturalText :: "int \<Rightarrow> string" where
  "naturalText v =
     (if v \<le> 2 ^ 53 then digitsOf v
      else let ds = digitsOf (shortestDecimal v)
           in if length ds \<le> 21 then ds else exponentForm ds)"

definition integerText :: "int \<Rightarrow> string" where
  "integerText v = (if 0 \<le> v then naturalText v else CHR ''-'' # naturalText (- v))"

text \<open>
  Decimal numerals as the specification means them, for comparison with the strings
  that the program prints: a numeral is a non-empty string of digits without a leading
  zero (the numeral \<open>0\<close> apart); \<open>decimalValue\<close> is the number that a string of digits
  denotes.
\<close>

definition digitValue :: "char \<Rightarrow> nat" where
  "digitValue c = of_char c - 48"

definition decimalValue :: "string \<Rightarrow> nat" where
  "decimalValue s = foldl (\<lambda>n c. 10 * n + digitValue c) 0 s"

definition decimalNumeral :: "string \<Rightarrow> bool" where
  "decimalNumeral s \<longleftrightarrow>
     s \<noteq> [] \<and> list_all (\<lambda>c. c \<in> set ''0123456789'') s \<and> (hd s = CHR ''0'' \<longrightarrow> s = ''0'')"

subsection \<open>formatFileSize and validateImageFile\<close>

text \<open>
  \<open>x.toFixed(1)\<close> for \<open>0 \<le> x < 10 ^ 21\<close>: the integer \<open>n\<close> with \<open>n / 10\<close> nearest to \<open>x\<close>
  (the larger one at a tie), printed with a point before its last digit.
\<close>

definition toFixed1 :: "rat \<Rightarrow> string" where
  "toFixed1 x =
     (let n = nat (Math_round (x * 10))
      in natString (n div 10) @ ''.'' @ natString (n mod 10))"

definition sizes :: "string list" where
  "sizes = [''B'', ''KB'', ''MB'', ''GB'']"

text \<open>
  \<open>sizes[i]\<close> in the template: an index that is not a position of \<open>sizes\<close> reads
  \<open>undefined\<close>, which the template prints as such.
\<close>

definition sizeUnit :: "int \<Rightarrow> string" where
  "sizeUnit i = (if 0 \<le> i \<and> i < int (length sizes) then sizes ! nat i else ''undefined'')"

text \<open>
  \<open>formatFileSize\<close>. The result of \<open>Math.log\<close> is left to the implementation by the
  language, so it is the parameter \<open>Math_log\<close>, from a positive integer to a double. The
  quotient of the two logarithms is rounded to a double and floored to the index \<open>i\<close>.
  \<open>Math.pow(k, i)\<close> is a power of two and the division of a byte count below \<open>2 ^ 53\<close> by
  it is exact. Should \<open>Math.log(k)\<close> be zero, the quotient is \<open>Infinity\<close>, \<open>-Infinity\<close> or
  \<open>NaN\<close>, with the texts of the three branches.
\<close>

definition formatFileSize :: "(nat \<Rightarrow> rat) \<Rightarrow> nat \<Rightarrow> string" where
  "formatFileSize Math_log bytes =
     (if bytes = 0 then ''0 B''
      else
        let k = (1024 :: nat) in
        if Math_log k = 0
        then (if 0 < Math_log bytes then ''0.0 undefined''
              else if Math_log bytes < 0 then ''Infinity undefined''
              else ''NaN undefined'')
        else
          let i = \<lfloor>binary64 (Math_log bytes / Math_log k)\<rfloor>
          in toFixed1 (of_nat bytes / of_nat k powi i) @ '' '' @ sizeUnit i)"

text \<open>
  For comparison: the base-1024 order of magnitude of a positive byte count, the largest
  \<open>i\<close> with \<open>1024 ^ i \<le> bytes\<close>, which the index of \<open>formatFileSize\<close> is meant to be. A
  logarithm has an exact index at a byte count when the index computed from it is this
  one.
\<close>

fun floorLog1024 :: "nat \<Rightarrow> nat" where
  "floorLog1024 n = (if n < 1024 then 0 else Suc (floorLog1024 (n div 1024)))"

declare floorLog1024.simps [simp del]

definition exactIndex :: "(nat \<Rightarrow> rat) \<Rightarrow> nat \<Rightarrow> bool" where
  "exactIndex Math_log bytes \<longleftrightarrow>
     Math_log 1024 \<noteq> 0
     \<and> \<lfloor>binary64 (Math_log bytes / Math_log 1024)\<rfloor> = int (floorLog1024 bytes)"

text \<open>
  What is used of an implementation of \<open>Math.log\<close>: a relative error of at most
  \<open>2 ^ -50\<close>, four units in the last place of a double.
\<close>

definition accurateLog :: "(nat \<Rightarrow> rat) \<Rightarrow> bool" where
  "accurateLog Math_log \<longleftrightarrow>
     (\<forall>n>0. \<bar>real_of_rat (Math_log n) - ln (real n)\<bar> \<le> ln (real n) / 2 ^ 50)"

text \<open>
  A logarithm for the examples: \<open>ln 2\<close>, to sixteen digits, times the position of the
  leading bit of the argument. It is exact to these digits on the powers of two, and
  coarse in between, but its index is exact at the byte counts of the examples.
\<close>

definition binaryLog :: "nat \<Rightarrow> rat" where
  "binaryLog n = of_int (bitlen (int n) - 1) * (6931471805599453 / 10000000000000000)"

record File =
  fname :: string
  ftype :: string
  fsize :: nat
  fcontent :: string

record ValidationResult =
  valid :: bool
  error :: "string option"

definition supportedTypes :: "string list" where
  "supportedTypes =
     [''image/jpeg'', ''image/jpg'', ''image/png'', ''image/webp'',
      ''image/avif'', ''image/bmp'', ''image/tiff'', ''image/gif'']"

definition validateImageFile :: "(nat \<Rightarrow> rat) \<Rightarrow> File \<Rightarrow> ValidationResult" where
  "validateImageFile Math_log file =
     (let maxSize = (50 * 1024 * 1024 :: nat) in
      if ftype file \<notin> set supportedTypes
      then \<lparr>valid = False,
            error = Some (''Unsupported file type: '' @ ftype file
                          @ ''. Supported formats: JPEG, PNG, WebP, AVIF, BMP, TIFF, GIF'')\<rparr>
      else if fsize file > maxSize
      then \<lparr>valid = False,
            error = Some (''File too large: '' @ formatFileSize Math_log (fsize file)
                          @ ''. Maximum size: '' @ formatFileSize Math_log maxSize)\<rparr>
      else \<lparr>valid = True, error = None\<rparr>)"

subsection \<open>sanitizeFileName and generateProcessedFileName\<close>

text \<open>
  Strings are lists of 8-bit characters, read as the code units U+0000 to U+00FF.
  \<open>isSpace\<close> is the class \<open>\s\<close> on that range (tab, line feed, vertical tab, form feed,
  carriage return, space, no-break space); \<open>isNameChar\<close> is \<open>[a-zA-Z0-9_-]\<close>.
\<close>

definition isSpace :: "char \<Rightarrow> bool" where
  "isSpace c = ((of_char c :: nat) \<in> {9, 10, 11, 12, 13, 32, 160})"

definition isNameChar :: "char \<Rightarrow> bool" where
  "isNameChar c =
     (let n = (of_char c :: nat)
      in (97 \<le> n \<and> n \<le> 122) \<or> (65 \<le> n \<and> n \<le> 90) \<or> (48 \<le> n \<and> n \<le> 57)
         \<or> n = 95 \<or> n = 45)"

text \<open>
  \<open>filename.replace(/\.[^/.]+$/, '')\<close>: the leftmost dot that is followed, up to the end
  of the string, by one or more characters other than \<open>/\<close> and \<open>.\<close> is removed together
  with what follows it.
\<close>

fun removeExtension :: "string \<Rightarrow> string" where
  "removeExtension [] = []"
| "removeExtension (c # cs) =
     (if c = CHR ''.'' \<and> cs \<noteq> [] \<and> list_all (\<lambda>x. x \<noteq> CHR ''/'' \<and> x \<noteq> CHR ''.'') cs
      then []
      else c # removeExtension cs)"

text \<open>
  \<open>.replace(/\s+/g, '_')\<close>: every maximal run of white space becomes one underscore.
  The flag says whether the previous character belonged to a run.
\<close>

fun replaceSpaceRuns :: "bool \<Rightarrow> string \<Rightarrow> string" where
  "replaceSpaceRuns inRun [] = []"
| "replaceSpaceRuns inRun (c # cs) =
     (if isSpace c
      then (if inRun then replaceSpaceRuns True cs else CHR ''_'' # replaceSpaceRuns True cs)
      else c # replaceSpaceRuns False cs)"

text \<open>The local \<open>sanitized\<close> of \<open>sanitizeFileName\<close>.\<close>

definition sanitized :: "string \<Rightarrow> string" where
  "sanitized filename =
     (let nameWithoutExt = removeExtension filename
      in take 50 (filter isNameChar (replaceSpaceRuns False nameWithoutExt)))"

text \<open>
  \<open>Date.now()\<close> is an input of the model: \<open>now\<close> is the clock reading, in milliseconds,
  at the call.
\<close>

definition sanitizeFileName :: "nat \<Rightarrow> string \<Rightarrow> string" where
  "sanitizeFileName now filename =
     (if sanitized filename \<noteq> [] then sanitized filename else ''image_'' @ natString now)"

text \<open>
  An absent argument is \<open>None\<close>. The test \<open>prefix && index !== undefined\<close> fails for an
  absent prefix and for the empty string. The index is an integer; \<open>index + 1\<close> is a
  double.
\<close>

definition generateProcessedFileName ::
  "nat \<Rightarrow> string \<Rightarrow> string option \<Rightarrow> int option \<Rightarrow> string" where
  "generateProcessedFileName now originalName prefix' index =
     (if prefix' \<noteq> None \<and> prefix' \<noteq> Some [] \<and> index \<noteq> None
      then sanitizeFileName now (the prefix') @ ''_''
             @ integerText \<lfloor>binary64 (of_int (the index) + 1)\<rfloor>
      else if index \<noteq> None
      then ''image_'' @ integerText \<lfloor>binary64 (of_int (the index) + 1)\<rfloor>
      else sanitizeFileName now originalName)"

section \<open>JavaScript values that cross the network\<close>

text \<open>
  A value decoded from JSON, or returned by the provider's client library. \<open>JFunc\<close>
  stands for a function-valued property, which JSON never yields. The keys of a
  \<open>JObj\<close> are distinct.
\<close>

datatype jsvalue =
    JUndefined
  | JNull
  | JBool bool
  | JNum rat
  | JStr string
  | JArr "jsvalue list"
  | JObj "(string \<times> jsvalue) list"
  | JFunc

fun truthy :: "jsvalue \<Rightarrow> bool" where
  "truthy JUndefined = False"
| "truthy JNull = False"
| "truthy (JBool b) = b"
| "truthy (JNum x) = (x \<noteq> 0)"
| "truthy (JStr s) = (s \<noteq> [])"
| "truthy (JArr xs) = True"
| "truthy (JObj ps) = True"
| "truthy JFunc = True"

text \<open>\<open>v && typeof v === 'object'\<close>\<close>

fun isObject :: "jsvalue \<Rightarrow> bool" where
  "isObject (JArr xs) = True"
| "isObject (JObj ps) = True"
| "isObject v = False"

text \<open>
  \<open>v[k]\<close> for the property names the routes read (\<open>url\<close>, \<open>stringValue\<close>, \<open>status\<close>,
  \<open>output\<close>, \<open>error\<close>): a property of an object, \<open>undefined\<close> on anything else.
\<close>

fun getProp :: "jsvalue \<Rightarrow> string \<Rightarrow> jsvalue" where
  "getProp (JObj ps) k = (case map_of ps k of Some v \<Rightarrow> v | None \<Rightarrow> JUndefined)"
| "getProp v k = JUndefined"

text \<open>\<open>Object.keys(v).length === 0\<close>, for \<open>v\<close> an object or an array\<close>

fun noKeys :: "jsvalue \<Rightarrow> bool" where
  "noKeys (JObj ps) = (ps = [])"
| "noKeys (JArr xs) = (xs = [])"
| "noKeys v = False"

text \<open>
  The scale factor \<open>targetSize / maxCurrentDimension\<close> of two natural numbers: a division
  by zero gives \<open>Infinity\<close>, or \<open>NaN\<close> for \<open>0 / 0\<close>.
\<close>

datatype jsnum = Finite rat | PosInfinity | NaN

definition divide_js :: "nat \<Rightarrow> nat \<Rightarrow> jsnum" where
  "divide_js a b =
     (if b \<noteq> 0 then Finite (of_nat a / of_nat b) else if a = 0 then NaN else PosInfinity)"

text \<open>\<open>x <= y\<close>\<close>

fun le_js :: "jsnum \<Rightarrow> rat \<Rightarrow> bool" where
  "le_js (Finite x) y = (x \<le> y)"
| "le_js PosInfinity y = False"
| "le_js NaN y = False"

text \<open>\<open>Math.min(x, y)\<close>\<close>

fun Math_min :: "jsnum \<Rightarrow> rat \<Rightarrow> jsnum" where
  "Math_min (Finite x) y = Finite (min x y)"
| "Math_min PosInfinity y = Finite y"
| "Math_min NaN y = NaN"

text \<open>\<open>JSON.stringify\<close> writes \<open>Infinity\<close> and \<open>NaN\<close> as \<open>null\<close>, here \<open>None\<close>.\<close>

fun jsonNumber :: "jsnum \<Rightarrow> rat option" where
  "jsonNumber (Finite x) = Some x"
| "jsonNumber PosInfinity = None"
| "jsonNumber NaN = None"

text \<open>\<open>s.startsWith(p)\<close> and \<open>s.includes(p)\<close>\<close>

definition startsWith :: "string \<Rightarrow> string \<Rightarrow> bool" where
  "startsWith s p = (take (length p) s = p)"

fun includesStr :: "string \<Rightarrow> string \<Rightarrow> bool" where
  "includesStr [] p = (p = [])"
| "includesStr (c # cs) p = (startsWith (c # cs) p \<or> includesStr cs p)"

section \<open>The server: files, environment, provider\<close>

type_synonym bytes = string

text \<open>A directory lists its files, each name once, with their contents.\<close>

type_synonym directory = "(string \<times> bytes) list"

record ReplicateInput =
  image :: bytes
  scale :: jsnum
  face_enhance :: bool

text \<open>
  The state the routes read and write: the directories \<open>public/uploads\<close> and
  \<open>public/processed\<close>, and the inputs sent to the provider so far, oldest first.
\<close>

record Server =
  uploads :: directory
  processed :: directory
  providerCalls :: "ReplicateInput list"

definition writeFile :: "directory \<Rightarrow> string \<Rightarrow> bytes \<Rightarrow> directory" where
  "writeFile dir name content = filter (\<lambda>e. fst e \<noteq> name) dir @ [(name, content)]"

record Metadata =
  metaWidth :: "nat option"
  metaHeight :: "nat option"

record FetchedResponse =
  ok :: bool
  statusText :: string
  body :: bytes

text \<open>
  A response of the provider's HTTP API: the status, and the JSON body, \<open>None\<close> when
  the body is not JSON (\<open>json()\<close> throws).
\<close>

record ApiResponse =
  apiStatus :: nat
  apiBody :: "jsvalue option"

datatype IoOperation =
    EnsureDirectories
  | WriteUpload string
  | WriteProcessed string
  | Unlink string

text \<open>
  What a request meets outside the program. A result \<open>Inl m\<close> is an exception with
  message \<open>m\<close>; where the program only says that a library call throws, the message
  in the model is a placeholder.
  \<^item> \<open>apiToken\<close>: the environment variable \<open>REPLICATE_API_TOKEN\<close>;
  \<open>requestTime\<close>, \<open>upscaleTime\<close>: \<open>Date.now()\<close> in the handler and in
  \<open>upscaleWithReplicate\<close>;
  \<^item> \<open>ioFails\<close>: whether a file-system operation throws;
  \<^item> \<open>sharpMetadata\<close>: \<open>sharp(buffer).metadata()\<close>;
  \<open>sharpPng\<close>: the PNG that \<open>toFile\<close> writes, after the resize when one is given;
  \<^item> \<open>replicateRun\<close>: \<open>replicate.run\<close> of the client library;
  \<open>replicateApi\<close>: the request to \<open>api.replicate.com/v1/predictions\<close>;
  \<open>fetchUrl\<close>: \<open>fetch\<close> of a URL, here with a body of bytes;
  \<^item> \<open>stringOf\<close>: the text of a value that is not a string, when a template prints it.
\<close>

record Env =
  apiToken :: "string option"
  requestTime :: nat
  upscaleTime :: nat
  ioFails :: "IoOperation \<Rightarrow> bool"
  sharpMetadata :: "bytes \<Rightarrow> string + Metadata"
  sharpPng :: "bytes \<Rightarrow> ImageDimensions option \<Rightarrow> string + bytes"
  replicateRun :: "ReplicateInput \<Rightarrow> string + jsvalue"
  replicateApi :: "ReplicateInput \<Rightarrow> string + ApiResponse"
  fetchUrl :: "string \<Rightarrow> string + FetchedResponse"
  stringOf :: "jsvalue \<Rightarrow> string"

section \<open>process-image: upscaleWithReplicate and POST\<close>

datatype UpscaleResult =
    UpscaleFailed string
  | Upscaled jsnum ImageDimensions string

text \<open>
  The URL in the output of \<open>replicate.run\<close>: the output itself when a string, else its
  \<open>url\<close>, its \<open>stringValue\<close>, or the first element of an array, when that is a string.
\<close>

definition outputImageUrl :: "jsvalue \<Rightarrow> string option" where
  "outputImageUrl output =
     (case output of
        JStr s \<Rightarrow> Some s
      | _ \<Rightarrow>
        if isObject output then
          (case getProp output ''url'' of
             JStr s \<Rightarrow> Some s
           | _ \<Rightarrow>
             (case getProp output ''stringValue'' of
                JStr s \<Rightarrow> Some s
              | _ \<Rightarrow>
                (case output of
                   JArr (JStr s # rest) \<Rightarrow> Some s
                 | _ \<Rightarrow> None)))
        else None)"

text \<open>
  The part of \<open>upscaleWithReplicate\<close> inside its \<open>try\<close>: \<open>Inl m\<close> is an exception with
  message \<open>m\<close>, which the \<open>catch\<close> turns into a failed result. The image is read from
  \<open>public/processed\<close> under the name it was written.
\<close>

definition upscaleAttempt ::
  "Env \<Rightarrow> string \<Rightarrow> string \<Rightarrow> jsnum \<Rightarrow> Server \<Rightarrow> (string + UpscaleResult) \<times> Server" where
  "upscaleAttempt env imagePath fileName scaleFactor server =
     (case map_of (processed server) imagePath of
        None \<Rightarrow> (Inl ''ENOENT: no such file or directory'', server)
      | Some imageBuffer \<Rightarrow>
        let input = \<lparr>image = imageBuffer, scale = Math_min scaleFactor 4, face_enhance = False\<rparr>;
            server1 = server\<lparr>providerCalls := providerCalls server @ [input]\<rparr>
        in case replicateRun env input of
             Inl m \<Rightarrow> (Inl m, server1)
           | Inr output \<Rightarrow>
             (case outputImageUrl output of
                None \<Rightarrow> (Inl ''No output from Replicate'', server1)
              | Some imageUrl \<Rightarrow>
                if imageUrl = [] then (Inl ''No output from Replicate'', server1)
                else
                  (case fetchUrl env imageUrl of
                     Inl m \<Rightarrow> (Inl m, server1)
                   | Inr response \<Rightarrow>
                     if \<not> ok response
                     then (Inl (''Failed to download upscaled image: '' @ statusText response), server1)
                     else
                       let upscaledBuffer = body response in
                       (case sharpMetadata env upscaledBuffer of
                          Inl m \<Rightarrow> (Inl m, server1)
                        | Inr upscaledMetadata \<Rightarrow>
                          (case (metaWidth upscaledMetadata, metaHeight upscaledMetadata) of
                             (Some w, Some h) \<Rightarrow>
                               if w = 0 \<or> h = 0 then (Inl ''Invalid upscaled image'', server1)
                               else
                                 let timestamp = upscaleTime env;
                                     upscaledFileName =
                                       ''upscaled_'' @ natString timestamp @ ''_'' @ fileName @ ''.png''
                                 in if ioFails env (WriteProcessed upscaledFileName)
                                    then (Inl ''write failed'', server1)
                                    else
                                      (Inr (Upscaled scaleFactor \<lparr>width = w, height = h\<rparr>
                                              (''/api/serve-image/'' @ upscaledFileName)),
                                       server1\<lparr>processed :=
                                                 writeFile (processed server1) upscaledFileName upscaledBuffer\<rparr>)
                           | _ \<Rightarrow> (Inl ''Invalid upscaled image'', server1))))))"

text \<open>\<open>upscaleWithReplicate\<close>: \<open>Inl m\<close> is the exception thrown for a missing token.\<close>

definition upscaleWithReplicate ::
  "Env \<Rightarrow> string \<Rightarrow> string \<Rightarrow> ImageDimensions \<Rightarrow> nat \<Rightarrow> Server
     \<Rightarrow> (string + UpscaleResult) \<times> Server" where
  "upscaleWithReplicate env imagePath fileName currentSize targetSize server =
     (if apiToken env = None \<or> apiToken env = Some []
      then (Inl ''REPLICATE_API_TOKEN not configured'', server)
      else
        let maxCurrentDimension = max (width currentSize) (height currentSize);
            scaleFactor = divide_js targetSize maxCurrentDimension
        in if le_js scaleFactor 1
           then (Inr (UpscaleFailed (''Image already at target size or larger (current: ''
                       @ natString maxCurrentDimension @ ''px, target: ''
                       @ natString targetSize @ ''px)'')), server)
           else
             (case upscaleAttempt env imagePath fileName scaleFactor server of
                (Inl m, server1) \<Rightarrow> (Inr (UpscaleFailed m), server1)
              | (Inr r, server1) \<Rightarrow> (Inr r, server1)))"

text \<open>
  The settings of the component, and the settings object it posts:
  \<open>{...settings, fileName, enableUpscaling: false}\<close>. Every field is present, so the
  defaults of the handler's destructuring never apply.
\<close>

record ProcessingSettings =
  enableUpscaling :: bool
  targetSize :: nat
  maxDimension :: nat
  namePrefix :: string

record RequestSettings = ProcessingSettings +
  fileName :: string

text \<open>The JSON body of a successful response; \<open>scaleFactor = None\<close> is \<open>null\<close>.\<close>

record ProcessResult =
  success :: bool
  processedName :: string
  originalSize :: ImageDimensions
  finalSize :: ImageDimensions
  wasResized :: bool
  wasUpscaled :: bool
  scaleFactor :: "rat option"
  downloadUrl :: string
  preview :: string

text \<open>Status 400 with its error message, status 500, status 200 with its body.\<close>

datatype ProcessResponse =
    BadRequest string
  | InternalServerError
  | Ok200 ProcessResult

definition MAX_FILE_SIZE :: nat where
  "MAX_FILE_SIZE = 50 * 1024 * 1024"

text \<open>
  The handler from the resize to the response, for an image of known dimensions. The
  scale factor of the resize and its products with the axes are doubles. A local
  variable that has the name of a field of the response carries a prime.
\<close>

definition processDecoded ::
  "Env \<Rightarrow> File \<Rightarrow> RequestSettings \<Rightarrow> ImageDimensions \<Rightarrow> Server \<Rightarrow> ProcessResponse \<times> Server" where
  "processDecoded env file settings originalSize' server =
     (let timestamp = requestTime env;
          maxCurrentDimension = max (width originalSize') (height originalSize');
          (finalSize', wasResized') =
            (if maxCurrentDimension > maxDimension settings
             then
               let scaleFactor' = binary64 (of_nat (maxDimension settings) / of_nat maxCurrentDimension);
                   newWidth = nat (Math_round (binary64 (of_nat (width originalSize') * scaleFactor')));
                   newHeight = nat (Math_round (binary64 (of_nat (height originalSize') * scaleFactor')))
               in (\<lparr>width = newWidth, height = newHeight\<rparr>, True)
             else (originalSize', False));
          processedFileName = fileName settings @ ''.png'';
          storedName = natString timestamp @ ''_'' @ processedFileName
      in case sharpPng env (fcontent file) (if wasResized' then Some finalSize' else None) of
           Inl m \<Rightarrow> (InternalServerError, server)
         | Inr png \<Rightarrow>
           if ioFails env (WriteProcessed storedName) then (InternalServerError, server)
           else
             let server1 = server\<lparr>processed := writeFile (processed server) storedName png\<rparr>;
                 processedUrl = ''/api/serve-image/'' @ storedName;
                 result = \<lparr>success = True,
                           processedName = fileName settings,
                           originalSize = originalSize',
                           finalSize = finalSize',
                           wasResized = wasResized',
                           wasUpscaled = False,
                           scaleFactor = Some 1,
                           downloadUrl = processedUrl,
                           preview = processedUrl\<rparr>;
                 finalMaxDimension = max (width finalSize') (height finalSize')
             in if enableUpscaling settings \<and> finalMaxDimension < targetSize settings
                then
                  (case upscaleWithReplicate env storedName (fileName settings) finalSize'
                          (targetSize settings) server1 of
                     (Inr (Upscaled upscaledFactor upscaledSize upscaledUrl), server2) \<Rightarrow>
                       (Ok200 (result\<lparr>wasUpscaled := True,
                                       scaleFactor := jsonNumber upscaledFactor,
                                       finalSize := upscaledSize,
                                       downloadUrl :=
                                         (if upscaledUrl \<noteq> [] then upscaledUrl else downloadUrl result),
                                       preview :=
                                         (if upscaledUrl \<noteq> [] then upscaledUrl else preview result)\<rparr>),
                        server2)
                   | (Inr (UpscaleFailed m), server2) \<Rightarrow> (Ok200 result, server2)
                   | (Inl m, server2) \<Rightarrow> (Ok200 result, server2))
                else (Ok200 result, server1))"

text \<open>
  \<open>POST /api/process-image\<close>. The form's file and settings are \<open>None\<close> when absent;
  settings that do not parse count as absent (\<open>JSON.parse\<close> throws).
\<close>

definition processImage_POST ::
  "Env \<Rightarrow> File option \<Rightarrow> RequestSettings option \<Rightarrow> Server \<Rightarrow> ProcessResponse \<times> Server" where
  "processImage_POST env fileOpt settingsOpt server =
     (if ioFails env EnsureDirectories then (InternalServerError, server)
      else
        case fileOpt of
          None \<Rightarrow> (BadRequest ''No file provided'', server)
        | Some file \<Rightarrow>
          if fsize file > MAX_FILE_SIZE
          then (BadRequest (''File too large: '' @ toFixed1 (of_nat (fsize file) / 1024 / 1024)
                            @ ''MB (max: 50MB)''), server)
          else
            (case settingsOpt of
               None \<Rightarrow> (InternalServerError, server)
             | Some settings \<Rightarrow>
               let timestamp = requestTime env;
                   uploadName = natString timestamp @ ''_'' @ fname file
               in if ioFails env (WriteUpload uploadName) then (InternalServerError, server)
                  else
                    let server1 = server\<lparr>uploads := writeFile (uploads server) uploadName (fcontent file)\<rparr>
                    in case sharpMetadata env (fcontent file) of
                         Inl m \<Rightarrow> (InternalServerError, server1)
                       | Inr metadata \<Rightarrow>
                         (case (metaWidth metadata, metaHeight metadata) of
                            (Some w, Some h) \<Rightarrow>
                              if w = 0 \<or> h = 0 then (BadRequest ''Invalid image file'', server1)
                              else processDecoded env file settings \<lparr>width = w, height = h\<rparr> server1
                          | _ \<Rightarrow> (BadRequest ''Invalid image file'', server1))))"

section \<open>upscale-image: POST\<close>

text \<open>
  The JSON body of the response: \<open>{success: false, error}\<close>, or
  \<open>{success: true, scaleFactor, finalSize, downloadUrl}\<close>. A scale factor that is not
  finite is written as \<open>null\<close> (\<open>None\<close>), and then both axes of \<open>finalSize\<close> are
  \<open>null\<close> (\<open>None\<close>) as well.
\<close>

datatype UpscaleResponse =
    UpscaleError string
  | UpscaleOk "rat option" "ImageDimensions option" jsvalue

text \<open>\<open>`${output.error || 'Unknown error'}`\<close>\<close>

definition errorText :: "Env \<Rightarrow> jsvalue \<Rightarrow> string" where
  "errorText env e =
     (if \<not> truthy e then ''Unknown error'' else case e of JStr s \<Rightarrow> s | _ \<Rightarrow> stringOf env e)"

text \<open>
  The reading of the provider's prediction: \<open>Inl m\<close> when the handler answers with the
  error \<open>m\<close>, else the value of \<open>resultUrl\<close>, \<open>JNull\<close> when no branch assigned it.
\<close>

definition predictionUrl :: "Env \<Rightarrow> jsvalue \<Rightarrow> string + jsvalue" where
  "predictionUrl env output =
     (if truthy output
         \<and> (getProp output ''status'' = JStr ''succeeded'' \<or> getProp output ''status'' = JStr ''processing'')
         \<and> truthy (getProp output ''output'')
      then
        (case getProp output ''output'' of
           JStr s \<Rightarrow> Inr (JStr s)
         | JArr (x # xs) \<Rightarrow> Inr x
         | _ \<Rightarrow> Inr JNull)
      else if truthy output \<and> getProp output ''status'' = JStr ''failed''
      then Inl (''Replicate prediction failed: '' @ errorText env (getProp output ''error''))
      else Inr JNull)"

text \<open>
  \<open>{width: Math.round(currentSize.width * scaleFactor), height: ...}\<close> as written to JSON:
  the product with \<open>Infinity\<close> or \<open>NaN\<close> is \<open>Infinity\<close> or \<open>NaN\<close>, hence \<open>null\<close>.
\<close>

definition scaledSize :: "ImageDimensions \<Rightarrow> jsnum \<Rightarrow> ImageDimensions option" where
  "scaledSize currentSize scaleFactor' =
     (case scaleFactor' of
        Finite f \<Rightarrow>
          Some \<lparr>width = nat (Math_round (of_nat (width currentSize) * f)),
                height = nat (Math_round (of_nat (height currentSize) * f))\<rparr>
      | _ \<Rightarrow> None)"

text \<open>
  \<open>POST /api/upscale-image\<close>. The body decoded from JSON has no function-valued
  property, so the branch for an output with a \<open>read\<close> method is never taken and is left
  out.
\<close>

definition upscaleImage_POST ::
  "Env \<Rightarrow> string \<Rightarrow> string \<Rightarrow> ImageDimensions \<Rightarrow> nat \<Rightarrow> Server \<Rightarrow> UpscaleResponse \<times> Server" where
  "upscaleImage_POST env imageUrl fileName' currentSize targetSize' server =
     (if apiToken env = None \<or> apiToken env = Some []
      then (UpscaleError ''REPLICATE_API_TOKEN not configured'', server)
      else
        let maxCurrentDimension = max (width currentSize) (height currentSize);
            scaleFactor' = divide_js targetSize' maxCurrentDimension
        in if le_js scaleFactor' 1
           then (UpscaleError (''Image already at target size ('' @ natString maxCurrentDimension
                               @ ''px >= '' @ natString targetSize' @ ''px)''), server)
           else
             (case fetchUrl env imageUrl of
                Inl m \<Rightarrow> (UpscaleError m, server)
              | Inr imageResponse \<Rightarrow>
                if \<not> ok imageResponse
                then (UpscaleError (''Failed to fetch image: '' @ statusText imageResponse), server)
                else
                  let input = \<lparr>image = body imageResponse,
                               scale = Math_min scaleFactor' 4,
                               face_enhance = False\<rparr>;
                      server1 = server\<lparr>providerCalls := providerCalls server @ [input]\<rparr>
                  in case replicateApi env input of
                       Inl m \<Rightarrow> (UpscaleError m, server1)
                     | Inr replicateResponse \<Rightarrow>
                       (case apiBody replicateResponse of
                          None \<Rightarrow> (UpscaleError ''Unexpected token in JSON'', server1)
                        | Some output \<Rightarrow>
                          if isObject output \<and> noKeys output
                          then (UpscaleError
                                  ''Replicate returned empty object - this might be a model or API issue'',
                                server1)
                          else if \<not> (200 \<le> apiStatus replicateResponse \<and> apiStatus replicateResponse \<le> 299)
                          then (UpscaleError (''Replicate API error: ''
                                              @ natString (apiStatus replicateResponse)), server1)
                          else
                            (case predictionUrl env output of
                               Inl m \<Rightarrow> (UpscaleError m, server1)
                             | Inr resultUrl \<Rightarrow>
                               if \<not> truthy resultUrl
                               then (UpscaleError ''No valid URL in Replicate response'', server1)
                               else (UpscaleOk (jsonNumber scaleFactor')
                                       (scaledSize currentSize scaleFactor') resultUrl,
                                     server1)))))"

section \<open>download-all: POST and the scheduled cleanup\<close>

record RequestedImage =
  imageId :: string
  name :: string
  imageDownloadUrl :: "string option"

datatype ArchiveResponse =
    NoImagesSpecified
  | ArchiveStream "(string \<times> bytes) list"

text \<open>What \<open>setTimeout\<close> was given: the delay in milliseconds and the callback.\<close>

datatype Callback = Cleanup

record ArchiveRun =
  response :: ArchiveResponse
  timers :: "(nat \<times> Callback) list"

text \<open>
  The entry that one requested image adds to the archive, if any: the bytes fetched from
  an external URL, or the first file of \<open>public/processed\<close> whose name contains the
  image's name. A failed fetch, a response that is not ok and a missing file add nothing.
\<close>

definition archiveEntry :: "Env \<Rightarrow> Server \<Rightarrow> RequestedImage \<Rightarrow> (string \<times> bytes) list" where
  "archiveEntry env server img =
     (let fileName' = name img @ ''.png'' in
      if imageDownloadUrl img \<noteq> None \<and> imageDownloadUrl img \<noteq> Some []
         \<and> startsWith (the (imageDownloadUrl img)) ''http''
      then
        (case fetchUrl env (the (imageDownloadUrl img)) of
           Inl m \<Rightarrow> []
         | Inr r \<Rightarrow> if ok r then [(fileName', body r)] else [])
      else
        (case find (\<lambda>f. includesStr (fst f) (name img)) (processed server) of
           Some matchingFile \<Rightarrow> [(fileName', snd matchingFile)]
         | None \<Rightarrow> []))"

text \<open>
  \<open>POST /api/download-all\<close>. The list of images is \<open>None\<close> when the body has none or
  it is not an array. The directories are not changed by the request itself.
\<close>

definition downloadAll_POST :: "Env \<Rightarrow> RequestedImage list option \<Rightarrow> Server \<Rightarrow> ArchiveRun" where
  "downloadAll_POST env images server =
     (case images of
        None \<Rightarrow> \<lparr>response = NoImagesSpecified, timers = []\<rparr>
      | Some imgs \<Rightarrow>
        if imgs = [] then \<lparr>response = NoImagesSpecified, timers = []\<rparr>
        else \<lparr>response = ArchiveStream (concat (map (archiveEntry env server) imgs)),
              timers = [(5000, Cleanup)]\<rparr>)"

text \<open>
  The loop \<open>for (const file of files) await unlink(...)\<close> inside its \<open>try\<close>: the first
  \<open>unlink\<close> that throws ends the loop, and the files not yet deleted stay.
\<close>

fun unlinkAll :: "(string \<Rightarrow> bool) \<Rightarrow> directory \<Rightarrow> directory" where
  "unlinkAll fails [] = []"
| "unlinkAll fails (f # fs) = (if fails (fst f) then f # fs else unlinkAll fails fs)"

text \<open>The callback of the timer, on the state of the server at the time it runs.\<close>

definition cleanup :: "Env \<Rightarrow> Server \<Rightarrow> Server" where
  "cleanup env server =
     server\<lparr>uploads := unlinkAll (\<lambda>f. ioFails env (Unlink f)) (uploads server),
            processed := unlinkAll (\<lambda>f. ioFails env (Unlink f)) (processed server)\<rparr>"

fun runCallback :: "Env \<Rightarrow> Callback \<Rightarrow> Server \<Rightarrow> Server" where
  "runCallback env Cleanup server = cleanup env server"

section \<open>The component: processImages\<close>

text \<open>An entry of \<open>files\<close>: \<open>{file, preview, id}\<close>.\<close>

record SelectedFile =
  file' :: File
  filePreview :: string
  fileId :: string

record ProcessedImage =
  id' :: string
  originalName :: string
  processedName :: string
  originalSize :: ImageDimensions
  finalSize :: "ImageDimensions option"
  wasResized :: bool
  wasUpscaled :: bool
  scaleFactor :: "rat option"
  downloadUrl :: jsvalue
  preview :: jsvalue

text \<open>
  The two endpoints as the component meets them, over a state \<open>'s\<close> of the world: the
  response, or \<open>None\<close> when \<open>fetch\<close> rejects (for the upscale endpoint also when the
  body is not JSON), and the state after the request.
\<close>

record 's Endpoints =
  processApi :: "File \<Rightarrow> RequestSettings \<Rightarrow> 's \<Rightarrow> ProcessResponse option \<times> 's"
  upscaleApi :: "string \<Rightarrow> string \<Rightarrow> ImageDimensions \<Rightarrow> nat \<Rightarrow> 's \<Rightarrow> UpscaleResponse option \<times> 's"
  origin :: string

text \<open>The name the component gives the \<open>i\<close>-th file, \<open>i\<close> from 0.\<close>

definition itemFileName :: "ProcessingSettings \<Rightarrow> nat \<Rightarrow> string" where
  "itemFileName settings i =
     (if namePrefix settings \<noteq> []
      then namePrefix settings @ ''_'' @ natString (i + 1)
      else ''image_'' @ natString (i + 1))"

text \<open>The image built from \<open>finalResult\<close> when no upscaled result replaced the basic one.\<close>

definition basicImage :: "SelectedFile \<Rightarrow> ProcessResult \<Rightarrow> ProcessedImage" where
  "basicImage fileData result =
     \<lparr>id' = fileId fileData,
      originalName = fname (file' fileData),
      processedName = ProcessResult.processedName result,
      originalSize = ProcessResult.originalSize result,
      finalSize = Some (ProcessResult.finalSize result),
      wasResized = ProcessResult.wasResized result,
      wasUpscaled = ProcessResult.wasUpscaled result,
      scaleFactor = ProcessResult.scaleFactor result,
      downloadUrl = JStr (ProcessResult.downloadUrl result),
      preview = JStr (ProcessResult.preview result)\<rparr>"

text \<open>
  One iteration of the loop of \<open>processImages\<close>: \<open>Some\<close> image when it reaches
  \<open>results.push\<close>, \<open>None\<close> when it ends in the outer \<open>catch\<close>.
\<close>

definition processItem ::
  "'s Endpoints \<Rightarrow> ProcessingSettings \<Rightarrow> nat \<Rightarrow> SelectedFile \<Rightarrow> 's \<Rightarrow> ProcessedImage option \<times> 's" where
  "processItem api settings i fileData world =
     (let fileName' = itemFileName settings i;
          request = ProcessingSettings.extend (settings\<lparr>enableUpscaling := False\<rparr>)
                      (RequestSettings.fields fileName')
      in case processApi api (file' fileData) request world of
           (None, world1) \<Rightarrow> (None, world1)
         | (Some (BadRequest m), world1) \<Rightarrow> (None, world1)
         | (Some InternalServerError, world1) \<Rightarrow> (None, world1)
         | (Some (Ok200 result), world1) \<Rightarrow>
           if enableUpscaling settings
              \<and> max (width (ProcessResult.finalSize result)) (height (ProcessResult.finalSize result))
                  < targetSize settings
           then
             let absoluteImageUrl =
                   (if startsWith (ProcessResult.downloadUrl result) ''http''
                    then ProcessResult.downloadUrl result
                    else origin api @ ProcessResult.downloadUrl result)
             in case upscaleApi api absoluteImageUrl fileName' (ProcessResult.finalSize result)
                       (targetSize settings) world1 of
                  (Some (UpscaleOk upscaledFactor upscaledSize upscaledUrl), world2) \<Rightarrow>
                    (Some ((basicImage fileData result)
                             \<lparr>wasUpscaled := True,
                              scaleFactor := upscaledFactor,
                              finalSize := upscaledSize,
                              downloadUrl := upscaledUrl,
                              preview := upscaledUrl\<rparr>),
                     world2)
                | (Some (UpscaleError m), world2) \<Rightarrow> (Some (basicImage fileData result), world2)
                | (None, world2) \<Rightarrow> (Some (basicImage fileData result), world2)
           else (Some (basicImage fileData result), world1))"

text \<open>The loop, from index \<open>i\<close>, with the \<open>results\<close> collected so far.\<close>

fun processLoop ::
  "'s Endpoints \<Rightarrow> ProcessingSettings \<Rightarrow> nat \<Rightarrow> SelectedFile list \<Rightarrow> ProcessedImage list \<Rightarrow> 's
     \<Rightarrow> ProcessedImage list \<times> 's" where
  "processLoop api settings i [] results world = (results, world)"
| "processLoop api settings i (fileData # rest) results world =
     (case processItem api settings i fileData world of
        (Some processedImage, world1) \<Rightarrow>
          processLoop api settings (Suc i) rest (results @ [processedImage]) world1
      | (None, world1) \<Rightarrow> processLoop api settings (Suc i) rest results world1)"

text \<open>
  \<open>processImages\<close>: the list handed to \<open>onProcessingComplete\<close>, \<open>None\<close> when there are
  no files and the function returns at once. The progress bar and the log are not
  modelled.
\<close>

definition processImages ::
  "'s Endpoints \<Rightarrow> ProcessingSettings \<Rightarrow> SelectedFile list \<Rightarrow> 's \<Rightarrow> ProcessedImage list option \<times> 's" where
  "processImages api settings files world =
     (if files = [] then (None, world)
      else case processLoop api settings 0 files [] world of
             (results, world1) \<Rightarrow> (Some results, world1))"

text \<open>What each iteration of the loop produced, in order, from index \<open>i\<close>.\<close>

fun iterations ::
  "'s Endpoints \<Rightarrow> ProcessingSettings \<Rightarrow> nat \<Rightarrow> SelectedFile list \<Rightarrow> 's \<Rightarrow> ProcessedImage option list" where
  "iterations api settings i [] world = []"
| "iterations api settings i (fileData # rest) world =
     (case processItem api settings i fileData world of
        (r, world1) \<Rightarrow> r # iterations api settings (Suc i) rest world1)"

text \<open>The component against the two routes of one server, with a network that never fails.\<close>

definition serverEndpoints :: "Env \<Rightarrow> string \<Rightarrow> Server Endpoints" where
  "serverEndpoints env host =
     \<lparr>processApi = (\<lambda>f settings server.
          case processImage_POST env (Some f) (Some settings) server of
            (r, server1) \<Rightarrow> (Some r, server1)),
      upscaleApi = (\<lambda>imageUrl fileName' currentSize target server.
          case upscaleImage_POST env imageUrl fileName' currentSize target server of
            (r, server1) \<Rightarrow> (Some r, server1)),
      origin = host\<rparr>"

section \<open>Example environments and batches\<close>

text \<open>The settings the component starts with.\<close>

definition initialSettings :: ProcessingSettings where
  "initialSettings = \<lparr>enableUpscaling = True, targetSize = 2560, maxDimension = 1300, namePrefix = ''''\<rparr>"

text \<open>
  A server without a provider token, whose image library reads every upload as an
  800 x 600 image and whose file system never fails. No prediction of the examples
  fails with an error that is not a string; \<open>stringOf\<close> is the text of an object.
\<close>

definition noTokenEnv :: Env where
  "noTokenEnv =
     \<lparr>apiToken = None,
      requestTime = 1700000000000,
      upscaleTime = 1700000000001,
      ioFails = (\<lambda>operation. False),
      sharpMetadata = (\<lambda>buffer. Inr \<lparr>metaWidth = Some 800, metaHeight = Some 600\<rparr>),
      sharpPng = (\<lambda>buffer resize. Inr ''PNG''),
      replicateRun = (\<lambda>input. Inl ''fetch failed''),
      replicateApi = (\<lambda>input. Inl ''fetch failed''),
      fetchUrl = (\<lambda>url. Inl ''fetch failed''),
      stringOf = (\<lambda>v. ''[object Object]'')\<rparr>"

definition emptyServer :: Server where
  "emptyServer = \<lparr>uploads = [], processed = [], providerCalls = []\<rparr>"

text \<open>Three selected files; the second one is 60 MiB large.\<close>

definition photoA :: SelectedFile where
  "photoA =
     \<lparr>file' = \<lparr>fname = ''a.jpg'', ftype = ''image/jpeg'', fsize = 1000, fcontent = ''A''\<rparr>,
      filePreview = ''blob:a'', fileId = ''id-a''\<rparr>"

definition photoB :: SelectedFile where
  "photoB =
     \<lparr>file' = \<lparr>fname = ''b.jpg'', ftype = ''image/jpeg'', fsize = 62914560, fcontent = ''B''\<rparr>,
      filePreview = ''blob:b'', fileId = ''id-b''\<rparr>"

definition photoC :: SelectedFile where
  "photoC =
     \<lparr>file' = \<lparr>fname = ''c.jpg'', ftype = ''image/jpeg'', fsize = 2000, fcontent = ''C''\<rparr>,
      filePreview = ''blob:c'', fileId = ''id-c''\<rparr>"

definition threeFiles :: "SelectedFile list" where
  "threeFiles = [photoA, photoB, photoC]"

text \<open>The same server with a token, and a provider that answers every request with \<open>{}\<close>.\<close>

definition emptyObjectEnv :: Env where
  "emptyObjectEnv =
     noTokenEnv
       \<lparr>apiToken := Some ''r8_0123456789'',
        fetchUrl := (\<lambda>url. Inr \<lparr>ok = True, statusText = ''OK'', body = ''PNG''\<rparr>),
        replicateApi := (\<lambda>input. Inr \<lparr>apiStatus = 200, apiBody = Some (JObj [])\<rparr>)\<rparr>"

text \<open>
  A server with a token whose image library reads an upload as a 100 x 100 image, and a
  provider that does what it is asked: for that image and scale 4 it returns the URL of
  a 400 x 400 image.
\<close>

definition upscalingEnv :: Env where
  "upscalingEnv =
     noTokenEnv
       \<lparr>apiToken := Some ''r8_0123456789'',
        sharpMetadata := (\<lambda>buffer.
          if buffer = ''UPSCALED'' then Inr \<lparr>metaWidth = Some 400, metaHeight = Some 400\<rparr>
          else Inr \<lparr>metaWidth = Some 100, metaHeight = Some 100\<rparr>),
        fetchUrl := (\<lambda>url.
          if url = ''https://replicate.delivery/out.png''
          then Inr \<lparr>ok = True, statusText = ''OK'', body = ''UPSCALED''\<rparr>
          else Inr \<lparr>ok = True, statusText = ''OK'', body = ''PNG''\<rparr>),
        replicateRun := (\<lambda>input. Inr (JStr ''https://replicate.delivery/out.png'')),
        replicateApi := (\<lambda>input.
          Inr \<lparr>apiStatus = 201,
               apiBody = Some (JObj [(''status'', JStr ''succeeded''),
                                     (''output'', JStr ''https://replicate.delivery/out.png'')])\<rparr>)\<rparr>"

text \<open>
  The same server with a provider whose prediction succeeds with an output that holds
  no URL: the array \<open>[123]\<close>.
\<close>

definition numberOutputEnv :: Env where
  "numberOutputEnv =
     upscalingEnv
       \<lparr>replicateRun := (\<lambda>input. Inr (JArr [JNum 123])),
        replicateApi := (\<lambda>input.
          Inr \<lparr>apiStatus = 201,
               apiBody = Some (JObj [(''status'', JStr ''succeeded''),
                                     (''output'', JArr [JNum 123])])\<rparr>)\<rparr>"

text \<open>The server after one image has been processed.\<close>

definition serverWithImage :: Server where
  "serverWithImage =
     \<lparr>uploads = [(''1700000000000_a.jpg'', ''A'')],
      processed = [(''1700000000000_image_1.png'', ''PNG'')],
      providerCalls = []\<rparr>"

text \<open>
  A second run, five seconds after the first, with the prefix \<open>logo\<close>; the server after
  both runs; and the archive request of the first run.
\<close>

definition otherRunEnv :: Env where
  "otherRunEnv = noTokenEnv\<lparr>requestTime := 1700000005000\<rparr>"

definition otherRunSettings :: RequestSettings where
  "otherRunSettings =
     \<lparr>enableUpscaling = False, targetSize = 2560, maxDimension = 1300, namePrefix = ''logo'',
      fileName = ''logo_1''\<rparr>"

definition twoRunsServer :: Server where
  "twoRunsServer =
     \<lparr>uploads = [(''1700000000000_a.jpg'', ''A''), (''1700000005000_b.jpg'', ''B'')],
      processed = [(''1700000000000_image_1.png'', ''PNG''), (''1700000005000_logo_1.png'', ''PNG'')],
      providerCalls = []\<rparr>"

text \<open>The same server when the upload of the first run cannot be deleted.\<close>

definition lockedUploadEnv :: Env where
  "lockedUploadEnv = noTokenEnv\<lparr>ioFails := (\<lambda>operation. operation = Unlink ''1700000000000_a.jpg'')\<rparr>"

definition firstRunRequest :: "RequestedImage list" where
  "firstRunRequest =
     [\<lparr>imageId = ''id-a'', name = ''image_1'',
       imageDownloadUrl = Some ''/api/serve-image/1700000000000_image_1.png''\<rparr>]"

section \<open>Properties of the sizing utilities\<close>

lemma Math_round_nonneg: "0 \<le> x \<Longrightarrow> 0 \<le> Math_round x"
  by (simp add: Math_round_def)

lemma Math_round_bounds: "of_int (Math_round y) \<le> y + 1 / 2" "y - 1 / 2 < of_int (Math_round y)"
  unfolding Math_round_def by linarith+





lemma Math_round_near: "\<bar>of_int (Math_round x) - x\<bar> \<le> 1 / 2"
  using Math_round_bounds [of x] by linarith








lemma roundTiesToEven_near: "\<bar>of_int (roundTiesToEven y) - y\<bar> \<le> 1 / 2"
proof -
  have "of_int \<lfloor>y\<rfloor> \<le> y" "y < of_int \<lfloor>y\<rfloor> + 1"
    by linarith+
  then show ?thesis
    by (auto simp: roundTiesToEven_def Let_def)
qed

lemma bitlen_powi:
  assumes "0 < p"
  shows "(2 :: rat) powi (bitlen p - 1) \<le> of_int p" "(of_int p :: rat) < 2 powi bitlen p"
proof -
  from bitlen_bounds [OF assms]
  have lo: "2 ^ nat (bitlen p - 1) \<le> p" and hi: "p < 2 ^ nat (bitlen p)"
    by blast+
  have pos: "1 \<le> bitlen p"
    using assms bitlen_eq_zero_iff [of p] bitlen_nonneg [of p] by linarith
  from lo have "(of_int (2 ^ nat (bitlen p - 1)) :: rat) \<le> of_int p"
    by (simp only: of_int_le_iff)
  then show "(2 :: rat) powi (bitlen p - 1) \<le> of_int p"
    using pos by (simp add: power_int_def)
  from hi have "(of_int p :: rat) < of_int (2 ^ nat (bitlen p))"
    by (simp only: of_int_less_iff)
  then show "(of_int p :: rat) < 2 powi bitlen p"
    using pos by (simp add: power_int_def)
qed

lemma binaryExponent_bounds:
  assumes "x \<noteq> 0"
  shows "2 powi binaryExponent x \<le> \<bar>x\<bar>" "\<bar>x\<bar> < 2 powi (binaryExponent x + 1)"
proof -
  obtain p q where pq: "quotient_of \<bar>x\<bar> = (p, q)"
    by (cases "quotient_of \<bar>x\<bar>")
  then have q: "0 < q" and frac: "\<bar>x\<bar> = of_int p / of_int q"
    using quotient_of_denom_pos [OF pq] quotient_of_div [OF pq] by simp_all
  have "0 < \<bar>x\<bar>"
    using assms by simp
  with frac q have p: "0 < p"
    by (simp add: zero_less_divide_iff)
  define c where "c = bitlen p - bitlen q"
  have qpos: "(0 :: rat) < of_int q"
    using q by simp
  have two: "(0 :: rat) < 2 powi n" for n
    by (simp add: zero_less_power_int)
  have pd: "(2 :: rat) powi (m - n) = 2 powi m / 2 powi n" for m n
    by (rule power_int_diff) simp
  have "c - 1 = (bitlen p - 1) - bitlen q"
    by (simp add: c_def)
  then have "(2 :: rat) powi (c - 1) = 2 powi (bitlen p - 1) / 2 powi bitlen q"
    by (simp only: pd)
  also have "\<dots> \<le> of_int p / 2 powi bitlen q"
    using bitlen_powi(1) [OF p] two by (simp add: divide_right_mono)
  also have "\<dots> \<le> of_int p / of_int q"
    using bitlen_powi(2) [OF q] p qpos by (simp add: frac_le)
  finally have lo: "2 powi (c - 1) \<le> \<bar>x\<bar>"
    by (simp add: frac)
  have "of_int p / (of_int q :: rat) < 2 powi bitlen p / of_int q"
    using bitlen_powi(2) [OF p] qpos by (simp add: divide_strict_right_mono)
  also have "\<dots> \<le> 2 powi bitlen p / 2 powi (bitlen q - 1)"
    using bitlen_powi(1) [OF q] two [of "bitlen q - 1"] two [of "bitlen p"]
    by (simp add: frac_le)
  also have "\<dots> = 2 powi (c + 1)"
  proof -
    have "c + 1 = bitlen p - (bitlen q - 1)"
      by (simp add: c_def)
    then show ?thesis
      by (simp only: pd)
  qed
  finally have hi: "\<bar>x\<bar> < 2 powi (c + 1)"
    by (simp add: frac)
  have e: "binaryExponent x = (if \<bar>x\<bar> < 2 powi c then c - 1 else c)"
    by (simp add: binaryExponent_def pq c_def Let_def)
  show "2 powi binaryExponent x \<le> \<bar>x\<bar>"
    using lo by (simp add: e)
  show "\<bar>x\<bar> < 2 powi (binaryExponent x + 1)"
    using hi by (simp add: e)
qed

lemma binary64_error: "\<bar>binary64 x - x\<bar> \<le> \<bar>x\<bar> / 2 ^ 53"
proof (cases "x = 0")
  case True
  then show ?thesis by (simp add: binary64_def)
next
  case False
  define e where "e = binaryExponent x - 52"
  define s :: rat where "s = 2 powi e"
  define r :: rat where "r = of_int (roundTiesToEven (x / s))"
  have s: "0 < s"
    by (simp add: s_def zero_less_power_int)
  have b: "binary64 x = r * s"
    using False by (simp add: binary64_def e_def s_def r_def Let_def)
  have "\<bar>r - x / s\<bar> \<le> 1 / 2"
    unfolding r_def by (rule roundTiesToEven_near)
  then have "\<bar>r - x / s\<bar> * s \<le> 1 / 2 * s"
    using s by (simp add: mult_right_mono)
  moreover have "\<bar>r - x / s\<bar> * s = \<bar>r * s - x\<bar>"
  proof -
    have "\<bar>r - x / s\<bar> * s = \<bar>r - x / s\<bar> * \<bar>s\<bar>"
      using s by simp
    also have "\<dots> = \<bar>(r - x / s) * s\<bar>"
      by (simp add: abs_mult)
    also have "(r - x / s) * s = r * s - x"
      using s by (simp add: algebra_simps)
    finally show ?thesis .
  qed
  ultimately have err: "\<bar>binary64 x - x\<bar> \<le> s / 2"
    by (simp add: b)
  have "s * 2 ^ 52 = 2 powi binaryExponent x"
  proof -
    have "(2 :: rat) powi binaryExponent x = 2 powi (e + 52)"
      by (simp add: e_def)
    also have "\<dots> = 2 powi e * 2 powi 52"
      by (rule power_int_add) simp
    finally show ?thesis
      by (simp add: s_def)
  qed
  with binaryExponent_bounds(1) [OF False] have "s * 2 ^ 52 \<le> \<bar>x\<bar>"
    by simp
  then have "s / 2 \<le> \<bar>x\<bar> / 2 ^ 53"
    by (simp add: field_simps)
  with err show ?thesis
    by linarith
qed

lemma roundsLikeDouble_binary64: "roundsLikeDouble binary64"
  unfolding roundsLikeDouble_def using binary64_error by blast

text \<open>
  An image of 612 x 1632 at the bound 1300: the exact width is 487.5, a tie that goes up
  to 488; the product of the doubles is below 487.5 and is rounded to 487.
\<close>

lemma rounded_axes:
  "Math_round (binary64 (612 * binary64 (1300 / 1632))) = 487"
  "Math_round (binary64 (1632 * binary64 (1300 / 1632))) = 1300"
  "Math_round (612 * (1300 / 1632)) = 488"
  "Math_round (1632 * (1300 / 1632)) = 1300"
  by code_simp+

lemma resize_in_doubles:
  "calculateResizeDimensions binary64 \<lparr>width = 612, height = 1632\<rparr> 1300
     = \<lparr>dimensions = \<lparr>width = 487, height = 1300\<rparr>, wasResized = True\<rparr>"
  "calculateResizeDimensions id \<lparr>width = 612, height = 1632\<rparr> 1300
     = \<lparr>dimensions = \<lparr>width = 488, height = 1300\<rparr>, wasResized = True\<rparr>"
  using rounded_axes by (simp_all add: calculateResizeDimensions_def Let_def)






section \<open>Properties of file validation and naming\<close>

lemma natString_digit: "d < 10 \<Longrightarrow> natString d = [digitChar d]"
  by (simp add: natString.simps [of d])

lemma digitChar_digit:
  assumes "d < 10"
  shows "digitChar d \<in> set ''0123456789''" and "digitValue (digitChar d) = d"
proof -
  from assms have "d = 0 \<or> d = 1 \<or> d = 2 \<or> d = 3 \<or> d = 4 \<or> d = 5 \<or> d = 6 \<or> d = 7 \<or> d = 8 \<or> d = 9"
    by arith
  then show "digitChar d \<in> set ''0123456789''" and "digitValue (digitChar d) = d"
    by (auto simp: digitChar_def digitValue_def)
qed

lemma digitChar_zero: "d < 10 \<Longrightarrow> digitChar d = CHR ''0'' \<Longrightarrow> d = 0"
  using digitChar_digit(2) [of d] by (simp add: digitValue_def)

lemma decimalValue_snoc: "decimalValue (s @ [c]) = 10 * decimalValue s + digitValue c"
  by (simp add: decimalValue_def)

lemma natString_decimal: "decimalNumeral (natString n) \<and> decimalValue (natString n) = n"
proof (induction n rule: natString.induct)
  case (1 n)
  show ?case
  proof (cases "n < 10")
    case True
    then have s: "natString n = [digitChar n]"
      by (rule natString_digit)
    from True digitChar_digit [of n] digitChar_zero [of n] show ?thesis
      by (auto simp: s decimalNumeral_def decimalValue_def digitChar_def)
  next
    case False
    let ?q = "n div 10"
    have s: "natString n = natString ?q @ [digitChar (n mod 10)]"
      using False by (simp add: natString.simps [of n])
    from "1.IH" [OF False] have ih: "decimalNumeral (natString ?q)" "decimalValue (natString ?q) = ?q"
      by simp_all
    have d: "n mod 10 < 10"
      by simp
    have q: "0 < ?q"
      using False by (simp add: div_greater_zero_iff)
    have ne: "natString ?q \<noteq> []"
      using ih(1) by (simp add: decimalNumeral_def)
    have "hd (natString ?q) \<noteq> CHR ''0''"
    proof
      assume "hd (natString ?q) = CHR ''0''"
      with ih(1) have "natString ?q = ''0''"
        by (simp add: decimalNumeral_def)
      with ih(2) have "?q = 0"
        by (simp add: decimalValue_def digitValue_def)
      with q show False by simp
    qed
    with ne have "hd (natString n) \<noteq> CHR ''0''"
      by (simp add: s)
    moreover have "list_all (\<lambda>c. c \<in> set ''0123456789'') (natString n)"
      using ih(1) digitChar_digit(1) [OF d] by (simp add: s decimalNumeral_def)
    ultimately have "decimalNumeral (natString n)"
      by (simp add: decimalNumeral_def s)
    moreover have "decimalValue (natString n) = n"
      using ih(2) digitChar_digit(2) [OF d] by (simp add: s decimalValue_snoc)
    ultimately show ?thesis ..
  qed
qed

lemma toFixed1_decimal:
  assumes "0 \<le> x"
  shows "\<exists>ip d. toFixed1 x = ip @ ''.'' @ [d] \<and> decimalNumeral ip \<and> d \<in> set ''0123456789''
           \<and> \<bar>(of_nat (10 * decimalValue ip + digitValue d) :: rat) / 10 - x\<bar> \<le> 1 / 20"
proof -
  define n where "n = nat (Math_round (x * 10))"
  have d: "n mod 10 < 10"
    by simp
  have t: "toFixed1 x = natString (n div 10) @ ''.'' @ [digitChar (n mod 10)]"
    by (simp add: toFixed1_def n_def Let_def natString_digit)
  have "0 \<le> Math_round (x * 10)"
    using assms by (intro Math_round_nonneg) simp
  then have "(of_nat n :: rat) = of_int (Math_round (x * 10))"
    by (simp add: n_def)
  moreover have "\<bar>of_int (Math_round (x * 10)) - x * 10\<bar> \<le> 1 / 2"
    by (rule Math_round_near)
  ultimately have "\<bar>(of_nat n :: rat) - x * 10\<bar> \<le> 1 / 2"
    by simp
  then have near: "\<bar>(of_nat n :: rat) / 10 - x\<bar> \<le> 1 / 20"
    by linarith
  have v: "10 * decimalValue (natString (n div 10)) + digitValue (digitChar (n mod 10)) = n"
    using natString_decimal [of "n div 10"] digitChar_digit(2) [OF d] by simp
  from t natString_decimal [of "n div 10"] digitChar_digit(1) [OF d] near v show ?thesis
    by (metis (no_types, lifting))
qed

lemma quotient_floor:
  fixes A K :: real and a k :: rat and j :: int
  assumes K: "0 < K" and A: "0 < A"
    and a: "\<bar>of_rat a - A\<bar> \<le> A / 2 ^ 50" and k: "\<bar>of_rat k - K\<bar> \<le> K / 2 ^ 50"
    and lo: "of_int j + 1 / 2 ^ 44 \<le> A / K" and hi: "A / K \<le> of_int j + 1 - 1 / 2 ^ 44"
    and j: "0 \<le> j" "j \<le> 7"
  shows "\<lfloor>binary64 (a / k)\<rfloor> = j" and "k \<noteq> 0"
proof -
  define e :: real where "e = 1 / 2 ^ 50"
  define t where "t = A / K"
  define ra where "ra = real_of_rat a"
  define rk where "rk = real_of_rat k"
  have e: "0 < e" "3 * e \<le> 1"
    by (simp_all add: e_def)
  have A_eq: "A = t * K"
    using K by (simp add: t_def)
  have jr: "0 \<le> (of_int j :: real)" "(of_int j :: real) \<le> 7"
    using j by simp_all
  have t: "0 < t" "t \<le> 8"
    using lo hi jr by (simp_all add: t_def)
  have split: "y * (1 - e) = y - y * e" "y * (1 + e) = y + y * e" "y / 2 ^ 50 = y * e" for y
    by (simp_all add: algebra_simps e_def)
  from a have "\<bar>ra - A\<bar> \<le> A * e"
    unfolding ra_def split(3) .
  then have ra: "A * (1 - e) \<le> ra" "ra \<le> A * (1 + e)"
    unfolding split by linarith+
  from k have "\<bar>rk - K\<bar> \<le> K * e"
    unfolding rk_def split(3) .
  then have rk: "K * (1 - e) \<le> rk" "rk \<le> K * (1 + e)"
    unfolding split by linarith+
  have "0 < K * (1 - e)"
    using K e by (simp add: e_def)
  with rk(1) have rkpos: "0 < rk"
    by linarith
  then show "k \<noteq> 0"
    by (auto simp: rk_def)
  have rapos: "0 \<le> ra"
  proof -
    have "0 \<le> A * (1 - e)"
      using A by (simp add: e_def)
    with ra(1) show ?thesis by linarith
  qed
  define Q where "Q = ra / rk"
  have Qpos: "0 \<le> Q"
    using rapos rkpos by (simp add: Q_def)
  have Qhi: "Q \<le> t * (1 + 3 * e)"
  proof -
    have "K * (1 + e) \<le> (1 + 3 * e) * (K * (1 - e))"
    proof -
      have "(1 + 3 * e) * (K * (1 - e)) - K * (1 + e) = K * (e * (1 - 3 * e))"
        by (simp add: algebra_simps)
      moreover have "0 \<le> K * (e * (1 - 3 * e))"
        using K e by simp
      ultimately show ?thesis by linarith
    qed
    also have "\<dots> \<le> (1 + 3 * e) * rk"
      using rk(1) e by (simp add: mult_left_mono)
    finally have "t * (K * (1 + e)) \<le> t * ((1 + 3 * e) * rk)"
      using t(1) by (simp add: mult_left_mono)
    moreover have "ra \<le> t * (K * (1 + e))"
      using ra(2) by (simp add: A_eq algebra_simps)
    ultimately have "ra \<le> t * (1 + 3 * e) * rk"
      by (simp add: algebra_simps)
    then show ?thesis
      using rkpos by (simp add: Q_def pos_divide_le_eq)
  qed
  have Qlo: "t * (1 - 2 * e) \<le> Q"
  proof -
    have "(1 - 2 * e) * (K * (1 + e)) \<le> K * (1 - e)"
    proof -
      have "K * (1 - e) - (1 - 2 * e) * (K * (1 + e)) = K * (2 * (e * e))"
        by (simp add: algebra_simps)
      moreover have "0 \<le> K * (2 * (e * e))"
        using K e by simp
      ultimately show ?thesis by linarith
    qed
    moreover have "(1 - 2 * e) * rk \<le> (1 - 2 * e) * (K * (1 + e))"
      using rk(2) e by (simp add: mult_left_mono)
    ultimately have "(1 - 2 * e) * rk \<le> K * (1 - e)"
      by linarith
    then have "t * ((1 - 2 * e) * rk) \<le> t * (K * (1 - e))"
      using t(1) by (simp add: mult_left_mono)
    moreover have "t * (K * (1 - e)) \<le> ra"
      using ra(1) by (simp add: A_eq algebra_simps)
    ultimately have "t * (1 - 2 * e) * rk \<le> ra"
      by (simp add: algebra_simps)
    then show ?thesis
      using rkpos by (simp add: Q_def pos_le_divide_eq)
  qed
  define x where "x = a / k"
  define R where "R = real_of_rat (binary64 x)"
  have xQ: "real_of_rat x = Q"
    by (simp add: x_def Q_def ra_def rk_def of_rat_divide)
  have x0: "0 \<le> x"
    using Qpos xQ [symmetric] by (simp add: zero_le_of_rat_iff)
  have ax: "\<bar>x\<bar> = x"
    using x0 by simp
  from binary64_error [of x] have "\<bar>binary64 x - x\<bar> \<le> x / 2 ^ 53"
    unfolding ax .
  then have "binary64 x - x \<le> x / 2 ^ 53" "x - binary64 x \<le> x / 2 ^ 53"
    by linarith+
  then have "real_of_rat (binary64 x - x) \<le> real_of_rat (x / 2 ^ 53)"
            "real_of_rat (x - binary64 x) \<le> real_of_rat (x / 2 ^ 53)"
    by (simp_all only: of_rat_less_eq)
  then have R: "R - Q \<le> Q / 2 ^ 53" "Q - R \<le> Q / 2 ^ 53"
    by (simp_all add: R_def of_rat_diff of_rat_divide of_rat_power xQ)
  have small: "Q / 2 ^ 53 \<le> Q * e"
    using Qpos by (simp add: e_def field_simps)
  have te: "t * e \<le> 8 * e"
    using t(2) e(1) by (simp add: mult_right_mono)
  have tee: "0 \<le> t * (e * e)" "t * (e * e) \<le> t * e"
    using t(1) e by (simp_all add: mult_left_le)
  have Qe: "Q * e \<le> t * e + 3 * (t * (e * e))"
  proof -
    have "Q * e \<le> t * (1 + 3 * e) * e"
      using Qhi e(1) by (simp add: mult_right_mono)
    then show ?thesis by (simp add: algebra_simps)
  qed
  have upper: "R < of_int j + 1"
  proof -
    have "R \<le> Q + Q * e"
      using R(1) small by linarith
    also have "\<dots> \<le> t * (1 + 3 * e) + (t * e + 3 * (t * (e * e)))"
      using Qhi Qe by linarith
    also have "\<dots> = t + 4 * (t * e) + 3 * (t * (e * e))"
      by (simp add: algebra_simps)
    also have "\<dots> \<le> t + 7 * (t * e)"
      using tee by linarith
    also have "\<dots> \<le> t + 56 * e"
      using te by linarith
    finally have "R \<le> t + 56 * e" .
    moreover have "56 * e < 1 / 2 ^ 44"
      by (simp add: e_def)
    ultimately show ?thesis
      using hi unfolding t_def [symmetric] by linarith
  qed
  have lower: "of_int j \<le> R"
  proof -
    have "t - 3 * (t * e) \<le> t * (1 - 2 * e) - (t * e + 3 * (t * (e * e))) + 3 * (t * (e * e))"
      by (simp add: algebra_simps)
    also have "\<dots> \<le> Q - Q * e + 3 * (t * (e * e))"
      using Qlo Qe by linarith
    also have "\<dots> \<le> R + 3 * (t * (e * e))"
      using R(2) small by linarith
    finally have "t - 3 * (t * e) - 3 * (t * (e * e)) \<le> R"
      by linarith
    then have "t - 6 * (t * e) \<le> R"
      using tee by linarith
    then have "t - 48 * e \<le> R"
      using te by linarith
    moreover have "48 * e \<le> 1 / 2 ^ 44"
      by (simp add: e_def)
    ultimately show ?thesis
      using lo unfolding t_def [symmetric] by linarith
  qed
  have "\<lfloor>R\<rfloor> = j"
    using lower upper by (simp add: floor_unique)
  then show "\<lfloor>binary64 (a / k)\<rfloor> = j"
    by (simp add: R_def x_def of_rat_floor)
qed

lemma log1024_bounds:
  fixes b m :: nat
  assumes m: "1 \<le> m" "m \<le> 30" and lo: "2 ^ m + 1 \<le> b" and hi: "b + 1 \<le> 2 ^ (m + 10)"
  shows "(real m / 10 + 1 / 2 ^ 44) * ln 1024 \<le> ln (real b)"
    and "ln (real b) \<le> (real m / 10 + 1 - 1 / 2 ^ 44) * ln 1024"
proof -
  define l2 :: real where "l2 = ln 2"
  have l2: "0 < l2" "l2 < 1"
    using ln_2_less_1 by (simp_all add: l2_def)
  have "(1024 :: real) = 2 ^ 10"
    by simp
  then have "ln (1024 :: real) = real 10 * ln 2"
    by (simp only: ln_realpow)
  then have K: "ln (1024 :: real) = 10 * l2"
    by (simp add: l2_def)
  define P :: real where "P = 2 ^ m"
  define P' :: real where "P' = 2 ^ (m + 10)"
  have P: "2 \<le> P" "P \<le> 2 ^ 30"
  proof -
    have "(2 :: real) ^ 1 \<le> 2 ^ m"
      using m(1) by (intro power_increasing) simp_all
    then show "2 \<le> P" by (simp add: P_def)
    have "(2 :: real) ^ m \<le> 2 ^ 30"
      using m(2) by (intro power_increasing) simp_all
    then show "P \<le> 2 ^ 30" by (simp add: P_def)
  qed
  have P': "2 \<le> P'" "P' \<le> 2 ^ 40"
  proof -
    have "(2 :: real) ^ 1 \<le> 2 ^ (m + 10)"
      by (intro power_increasing) simp_all
    then show "2 \<le> P'" by (simp add: P'_def)
    have "(2 :: real) ^ (m + 10) \<le> 2 ^ 40"
      using m(2) by (intro power_increasing) simp_all
    then show "P' \<le> 2 ^ 40" by (simp add: P'_def)
  qed
  have lnP: "ln P = real m * l2"
    by (simp add: P_def l2_def ln_realpow)
  have lnP': "ln P' = real m * l2 + 10 * l2"
    by (simp add: P'_def l2_def ln_realpow algebra_simps)
  have bP: "P + 1 \<le> real b"
  proof -
    from lo have "real (2 ^ m + 1) \<le> real b"
      by (simp only: of_nat_le_iff)
    then show ?thesis by (simp add: P_def)
  qed
  have bP': "real b \<le> P' - 1"
  proof -
    from hi have "real (b + 1) \<le> real (2 ^ (m + 10))"
      by (simp only: of_nat_le_iff)
    then show ?thesis by (simp add: P'_def)
  qed
  have bpos: "0 < real b"
    using bP P by linarith
  show "(real m / 10 + 1 / 2 ^ 44) * ln 1024 \<le> ln (real b)"
  proof -
    define u where "u = 1 / P"
    have u: "0 < u" "u \<le> 1 / 2" "1 / 2 ^ 30 \<le> u"
      using P by (simp_all add: u_def field_simps)
    have "u * u \<le> u * (1 / 2)"
      using u by (intro mult_left_mono) simp_all
    then have "u / 2 \<le> u - u\<^sup>2"
      by (simp add: power2_eq_square)
    also have "\<dots> \<le> ln (1 + u)"
      using u by (intro ln_one_plus_pos_lower_bound) simp_all
    finally have "1 / 2 ^ 31 \<le> ln (1 + u)"
      using u(3) by simp
    moreover have "ln (P + 1) = ln P + ln (1 + u)"
    proof -
      have "P + 1 = P * (1 + u)"
        using P by (simp add: u_def field_simps)
      moreover have "ln (P * (1 + u)) = ln P + ln (1 + u)"
        using P u by (simp add: ln_mult)
      ultimately show ?thesis by simp
    qed
    moreover have "ln (P + 1) \<le> ln (real b)"
      using bP P by (simp add: ln_le_cancel_iff)
    ultimately have "real m * l2 + 1 / 2 ^ 31 \<le> ln (real b)"
      using lnP by linarith
    moreover have "(real m / 10 + 1 / 2 ^ 44) * (10 * l2) = real m * l2 + 10 * l2 / 2 ^ 44"
      by (simp add: algebra_simps)
    moreover have "10 * l2 / 2 ^ 44 \<le> 1 / 2 ^ 31"
      using l2 by simp
    ultimately show ?thesis
      unfolding K by linarith
  qed
  show "ln (real b) \<le> (real m / 10 + 1 - 1 / 2 ^ 44) * ln 1024"
  proof -
    define v where "v = 1 / P'"
    have v: "0 < v" "v \<le> 1 / 2" "1 / 2 ^ 40 \<le> v"
      using P' by (simp_all add: v_def field_simps)
    have "ln (1 - v) \<le> (1 - v) - 1"
      using v by (intro ln_le_minus_one) simp
    then have "ln (1 - v) \<le> - (1 / 2 ^ 40)"
      using v(3) by linarith
    moreover have "ln (P' - 1) = ln P' + ln (1 - v)"
    proof -
      have "P' - 1 = P' * (1 - v)"
        using P' by (simp add: v_def field_simps)
      moreover have "ln (P' * (1 - v)) = ln P' + ln (1 - v)"
        using P' v by (simp add: ln_mult)
      ultimately show ?thesis by simp
    qed
    moreover have "ln (real b) \<le> ln (P' - 1)"
      using bP' bpos by (simp add: ln_le_cancel_iff)
    ultimately have "ln (real b) \<le> real m * l2 + 10 * l2 - 1 / 2 ^ 40"
      using lnP' by linarith
    moreover have "(real m / 10 + 1 - 1 / 2 ^ 44) * (10 * l2)
                     = real m * l2 + 10 * l2 - 10 * l2 / 2 ^ 44"
      by (simp add: algebra_simps)
    moreover have "10 * l2 / 2 ^ 44 \<le> 1 / 2 ^ 40"
      using l2 by simp
    ultimately show ?thesis
      unfolding K by linarith
  qed
qed

lemma accurateLog_index:
  fixes b j :: nat
  assumes acc: "accurateLog Math_log" and j: "1 \<le> j" "j \<le> 3"
    and lo: "1024 ^ j < b" and hi: "b < 1024 ^ (j + 1)"
  shows "\<lfloor>binary64 (Math_log b / Math_log 1024)\<rfloor> = int j" and "Math_log 1024 \<noteq> 0"
proof -
  define m where "m = 10 * j"
  have pw: "(1024 :: nat) ^ n = 2 ^ (10 * n)" for n
    by (simp add: power_mult)
  have m: "1 \<le> m" "m \<le> 30"
    using j by (simp_all add: m_def)
  have lo': "2 ^ m + 1 \<le> b"
    using lo by (simp add: pw m_def)
  have hi': "b + 1 \<le> 2 ^ (m + 10)"
    using hi by (simp add: pw m_def power_add)
  have K: "0 < ln (1024 :: real)"
    by simp
  have b2: "2 \<le> b"
  proof -
    have "(2 :: nat) ^ 1 \<le> 2 ^ m"
      using m(1) by (intro power_increasing) simp_all
    with lo' show ?thesis by simp
  qed
  then have A: "0 < ln (real b)"
    by simp
  from acc b2 have a: "\<bar>real_of_rat (Math_log b) - ln (real b)\<bar> \<le> ln (real b) / 2 ^ 50"
    by (simp add: accurateLog_def)
  from acc have k: "\<bar>real_of_rat (Math_log 1024) - ln (real 1024)\<bar> \<le> ln (real 1024) / 2 ^ 50"
    unfolding accurateLog_def by (rule allE [of _ 1024]) simp
  then have k': "\<bar>real_of_rat (Math_log 1024) - ln 1024\<bar> \<le> ln 1024 / 2 ^ 50"
    by simp
  have mj: "real m / 10 = real_of_int (int j)"
    by (simp add: m_def)
  from log1024_bounds [OF m lo' hi']
  have "(real_of_int (int j) + 1 / 2 ^ 44) * ln 1024 \<le> ln (real b)"
    and "ln (real b) \<le> (real_of_int (int j) + 1 - 1 / 2 ^ 44) * ln 1024"
    unfolding mj by blast+
  then have bounds: "real_of_int (int j) + 1 / 2 ^ 44 \<le> ln (real b) / ln 1024"
    "ln (real b) / ln 1024 \<le> real_of_int (int j) + 1 - 1 / 2 ^ 44"
    using K by (simp_all only: pos_le_divide_eq pos_divide_le_eq)
  from quotient_floor(1) [OF K A a k' bounds] show "\<lfloor>binary64 (Math_log b / Math_log 1024)\<rfloor> = int j"
    using j by simp
  from quotient_floor(2) [OF K A a k' bounds] show "Math_log 1024 \<noteq> 0"
    using j by simp
qed

lemma floorLog1024_bounds:
  "0 < n \<Longrightarrow> 1024 ^ floorLog1024 n \<le> n \<and> n < 1024 ^ Suc (floorLog1024 n)"
proof (induction n rule: floorLog1024.induct)
  case (1 n)
  show ?case
  proof (cases "n < 1024")
    case True
    with "1.prems" show ?thesis
      by (simp add: floorLog1024.simps [of n])
  next
    case False
    then have pos: "0 < n div 1024"
      by (simp add: div_greater_zero_iff)
    from "1.IH" [OF False pos]
    have lo: "1024 ^ floorLog1024 (n div 1024) \<le> n div 1024"
      and hi: "n div 1024 < 1024 ^ Suc (floorLog1024 (n div 1024))"
      by simp_all
    have eq: "floorLog1024 n = Suc (floorLog1024 (n div 1024))"
      using False by (simp add: floorLog1024.simps [of n])
    have "1024 * 1024 ^ floorLog1024 (n div 1024) \<le> 1024 * (n div 1024)"
      using lo by simp
    also have "\<dots> \<le> n"
      by simp
    finally have a: "1024 ^ floorLog1024 n \<le> n"
      by (simp add: eq)
    have "Suc (n div 1024) \<le> 1024 ^ Suc (floorLog1024 (n div 1024))"
      using hi by simp
    then have "1024 * Suc (n div 1024) \<le> 1024 * 1024 ^ Suc (floorLog1024 (n div 1024))"
      by (simp only: mult_le_mono2)
    moreover have "n < 1024 * Suc (n div 1024)"
      using dividend_less_times_div [of 1024 n] by simp
    ultimately have b: "n < 1024 ^ Suc (floorLog1024 n)"
      by (simp add: eq)
    from a b show ?thesis ..
  qed
qed

lemma floorLog1024_unique:
  assumes "1024 ^ i \<le> n" and "n < 1024 ^ Suc i"
  shows "floorLog1024 n = i"
proof -
  have pos: "0 < n"
    using assms(1) by (cases "n = 0") simp_all
  from floorLog1024_bounds [OF pos]
  have lo: "1024 ^ floorLog1024 n \<le> n" and hi: "n < 1024 ^ Suc (floorLog1024 n)"
    by blast+
  have one: "(1 :: nat) < 1024"
    by simp
  have "(1024 :: nat) ^ i < 1024 ^ Suc (floorLog1024 n)"
    using assms(1) hi by linarith
  with one have a: "i < Suc (floorLog1024 n)"
    by (rule power_less_imp_less_exp)
  have "(1024 :: nat) ^ floorLog1024 n < 1024 ^ Suc i"
    using lo assms(2) by linarith
  with one have b: "floorLog1024 n < Suc i"
    by (rule power_less_imp_less_exp)
  from a b show ?thesis
    by simp
qed

lemma formatFileSize_index:
  assumes "0 < bytes" and "Math_log 1024 \<noteq> 0"
    and "\<lfloor>binary64 (Math_log bytes / Math_log 1024)\<rfloor> = int i"
  shows "formatFileSize Math_log bytes
           = toFixed1 (of_nat bytes / 1024 ^ i) @ '' '' @ sizeUnit (int i)"
  using assms by (simp add: formatFileSize_def Let_def power_int_of_nat)

lemma sizeUnit_values: "sizeUnit 2 = ''MB''" "sizeUnit 3 = ''GB''" "sizeUnit 4 = ''undefined''"
  by (simp_all add: sizeUnit_def sizes_def)

lemma index_of_size:
  fixes b j :: nat
  assumes j: "1 \<le> j" "j \<le> 3" and lo: "1024 ^ j \<le> b" and hi: "b < 1024 ^ (j + 1)"
    and engine: "exactIndex Math_log b \<or> accurateLog Math_log \<and> b \<noteq> 1024 ^ j"
  shows "Math_log 1024 \<noteq> 0 \<and> \<lfloor>binary64 (Math_log b / Math_log 1024)\<rfloor> = int j"
proof -
  from engine consider "exactIndex Math_log b" | "accurateLog Math_log" "b \<noteq> 1024 ^ j"
    by blast
  then show ?thesis
  proof cases
    case 1
    moreover have "floorLog1024 b = j"
      using lo hi by (intro floorLog1024_unique) simp_all
    ultimately show ?thesis
      by (simp add: exactIndex_def)
  next
    case 2
    with lo have "1024 ^ j < b"
      by simp
    from accurateLog_index [OF 2(1) j this hi] show ?thesis
      by simp
  qed
qed

lemma toFixed1_50: "toFixed1 50 = ''50.0''"
  by code_simp

lemma formatFileSize_maxSize:
  assumes "exactIndex Math_log 52428800 \<or> accurateLog Math_log"
  shows "formatFileSize Math_log 52428800 = ''50.0 MB''"
proof -
  have "Math_log 1024 \<noteq> 0 \<and> \<lfloor>binary64 (Math_log 52428800 / Math_log 1024)\<rfloor> = int 2"
    using assms by (intro index_of_size) auto
  then have "formatFileSize Math_log 52428800 = toFixed1 (of_nat 52428800 / 1024 ^ 2) @ '' '' @ sizeUnit (int 2)"
    by (intro formatFileSize_index) simp_all
  also have "(of_nat 52428800 / 1024 ^ 2 :: rat) = 50"
    by simp
  finally show ?thesis
    by (simp add: toFixed1_50 sizeUnit_values)
qed

lemma supportedTypes_set:
  "set supportedTypes =
     {''image/jpeg'', ''image/jpg'', ''image/png'', ''image/webp'',
      ''image/avif'', ''image/bmp'', ''image/tiff'', ''image/gif''}"
  by (simp add: supportedTypes_def)

lemma accurateLog_satisfiable: "\<exists>Math_log. accurateLog Math_log"
proof -
  have "\<exists>r :: rat. \<bar>real_of_rat r - ln (real n)\<bar> \<le> ln (real n) / 2 ^ 50" if "0 < n" for n :: nat
  proof (cases "n = 1")
    case True
    then have "\<bar>real_of_rat 0 - ln (real n)\<bar> \<le> ln (real n) / 2 ^ 50"
      by simp
    then show ?thesis ..
  next
    case False
    with that have "0 < ln (real n)"
      by simp
    then have "ln (real n) < ln (real n) + ln (real n) / 2 ^ 50"
      by simp
    from of_rat_dense [OF this] obtain q :: rat
      where "ln (real n) < of_rat q" "of_rat q < ln (real n) + ln (real n) / 2 ^ 50"
      by blast
    then have "\<bar>real_of_rat q - ln (real n)\<bar> \<le> ln (real n) / 2 ^ 50"
      by linarith
    then show ?thesis ..
  qed
  then have "\<forall>n. \<exists>r :: rat. 0 < n \<longrightarrow> \<bar>real_of_rat r - ln (real n)\<bar> \<le> ln (real n) / 2 ^ 50"
    by blast
  then obtain L :: "nat \<Rightarrow> rat"
    where "\<forall>n. 0 < n \<longrightarrow> \<bar>real_of_rat (L n) - ln (real n)\<bar> \<le> ln (real n) / 2 ^ 50"
    by metis
  then have "accurateLog L"
    by (simp add: accurateLog_def)
  then show ?thesis
    by blast
qed

lemma bitlen_values:
  "bitlen 1024 = 11" "bitlen 52428800 = 26" "bitlen 62914560 = 26" "bitlen 2199023255552 = 42"
  by code_simp+

lemma binaryLog_values:
  "binaryLog 1024 = 10 * (6931471805599453 / 10000000000000000)"
  "binaryLog 52428800 = 25 * (6931471805599453 / 10000000000000000)"
  "binaryLog 62914560 = 25 * (6931471805599453 / 10000000000000000)"
  "binaryLog 2199023255552 = 41 * (6931471805599453 / 10000000000000000)"
  by (simp_all add: binaryLog_def bitlen_values)

lemma binaryLog_indices:
  "\<lfloor>binary64 (binaryLog 52428800 / binaryLog 1024)\<rfloor> = 2"
  "\<lfloor>binary64 (binaryLog 62914560 / binaryLog 1024)\<rfloor> = 2"
  "\<lfloor>binary64 (binaryLog 2199023255552 / binaryLog 1024)\<rfloor> = 4"
  unfolding binaryLog_values by code_simp+

lemma floorLog1024_values: "floorLog1024 52428800 = 2" "floorLog1024 62914560 = 2"
  by (simp_all add: floorLog1024.simps [of 52428800] floorLog1024.simps [of 51200]
        floorLog1024.simps [of 50] floorLog1024.simps [of 62914560] floorLog1024.simps [of 61440]
        floorLog1024.simps [of 60])

lemma binaryLog_exact: "exactIndex binaryLog 52428800" "exactIndex binaryLog 62914560"
  by (simp_all add: exactIndex_def binaryLog_indices floorLog1024_values)
     (simp_all add: binaryLog_values)

lemma toFixed1_values: "toFixed1 2 = ''2.0''" "toFixed1 60 = ''60.0''"
  by code_simp+

lemma formatFileSize_2TiB: "formatFileSize binaryLog 2199023255552 = ''2.0 undefined''"
proof -
  have "binaryLog 1024 \<noteq> 0"
    by (simp add: binaryLog_values)
  moreover have "\<lfloor>binary64 (binaryLog 2199023255552 / binaryLog 1024)\<rfloor> = int 4"
    by (simp add: binaryLog_indices)
  ultimately have "formatFileSize binaryLog 2199023255552
      = toFixed1 (of_nat 2199023255552 / 1024 ^ 4) @ '' '' @ sizeUnit (int 4)"
    by (intro formatFileSize_index) simp_all
  also have "(of_nat 2199023255552 / 1024 ^ 4 :: rat) = 2"
    by simp
  finally show ?thesis
    by (simp add: toFixed1_values sizeUnit_values)
qed

text \<open>
  Below 1 TiB the message is as specified. \<open>validateImageFile\<close> rejects a file exactly
  when it is larger than 50 MiB (52428800 bytes) or its MIME type is not one of the
  eight supported types. A file of an unsupported type gets the message that names the
  type and lists the supported formats (the type is tested first, so this is also the
  message of an oversize file of an unsupported type). An oversize file of a supported
  type and of less than 1 TiB gets
  \<open>File too large: <size> <unit>. Maximum size: 50.0 MB\<close>: the unit is \<open>MB\<close> below 1 GiB
  and \<open>GB\<close> from there on, and the size is a decimal numeral, a point and one digit,
  which denote a number at most one twentieth away from the byte count divided by
  \<open>2 ^ 20\<close> or \<open>2 ^ 30\<close>. This holds when the index computed from the logarithms is exact
  at the size of the file and at 52428800, and for every \<open>Math.log\<close> with a relative
  error of at most \<open>2 ^ -50\<close> when the file is not of exactly 1 GiB, where the index
  depends on the last bits of the two logarithms.
\<close>

lemma validateImageFile_below_1TiB:
  "(\<not> valid (validateImageFile Math_log f) \<longleftrightarrow>
      (50 * 1024 * 1024 < fsize f \<or> ftype f \<notin> set supportedTypes))
   \<and> set supportedTypes =
        {''image/jpeg'', ''image/jpg'', ''image/png'', ''image/webp'',
         ''image/avif'', ''image/bmp'', ''image/tiff'', ''image/gif''}
   \<and> (ftype f \<notin> set supportedTypes \<longrightarrow>
        error (validateImageFile Math_log f)
          = Some (''Unsupported file type: '' @ ftype f
                  @ ''. Supported formats: JPEG, PNG, WebP, AVIF, BMP, TIFF, GIF''))
   \<and> (ftype f \<in> set supportedTypes \<and> 52428800 < fsize f \<and> fsize f < 2 ^ 40
       \<and> (exactIndex Math_log (fsize f) \<and> exactIndex Math_log 52428800
           \<or> accurateLog Math_log \<and> fsize f \<noteq> 2 ^ 30)
       \<longrightarrow> (\<exists>ip d.
              error (validateImageFile Math_log f)
                = Some (''File too large: '' @ ip @ ''.'' @ [d] @ '' ''
                        @ (if fsize f < 2 ^ 30 then ''MB'' else ''GB'')
                        @ ''. Maximum size: 50.0 MB'')
            \<and> decimalNumeral ip \<and> d \<in> set ''0123456789''
            \<and> \<bar>(of_nat (10 * decimalValue ip + digitValue d) :: rat) / 10
                 - of_nat (fsize f) / (if fsize f < 2 ^ 30 then 2 ^ 20 else 2 ^ 30)\<bar> \<le> 1 / 20))"
proof (intro conjI impI)
  show "(\<not> valid (validateImageFile Math_log f))
          = (50 * 1024 * 1024 < fsize f \<or> ftype f \<notin> set supportedTypes)"
    by (simp add: validateImageFile_def Let_def)
  show "set supportedTypes =
        {''image/jpeg'', ''image/jpg'', ''image/png'', ''image/webp'',
         ''image/avif'', ''image/bmp'', ''image/tiff'', ''image/gif''}"
    by (rule supportedTypes_set)
next
  assume "ftype f \<notin> set supportedTypes"
  then show "error (validateImageFile Math_log f)
          = Some (''Unsupported file type: '' @ ftype f
                  @ ''. Supported formats: JPEG, PNG, WebP, AVIF, BMP, TIFF, GIF'')"
    by (simp add: validateImageFile_def Let_def)
next
  assume h: "ftype f \<in> set supportedTypes \<and> 52428800 < fsize f \<and> fsize f < 2 ^ 40
       \<and> (exactIndex Math_log (fsize f) \<and> exactIndex Math_log 52428800
           \<or> accurateLog Math_log \<and> fsize f \<noteq> 2 ^ 30)"
  define b where "b = fsize f"
  define j :: nat where "j = (if b < 2 ^ 30 then 2 else 3)"
  have b: "52428800 < b" "b < 2 ^ 40" and known: "ftype f \<in> set supportedTypes"
    using h by (simp_all add: b_def)
  have j: "1 \<le> j" "j \<le> 3" "1024 ^ j \<le> b" "b < 1024 ^ (j + 1)"
    using b by (simp_all add: j_def)
  have engine: "exactIndex Math_log b \<or> accurateLog Math_log \<and> b \<noteq> 1024 ^ j"
    using h b by (auto simp: b_def j_def)
  have max: "formatFileSize Math_log 52428800 = ''50.0 MB''"
    using h by (intro formatFileSize_maxSize) blast
  from index_of_size [OF j engine]
  have "formatFileSize Math_log b = toFixed1 (of_nat b / 1024 ^ j) @ '' '' @ sizeUnit (int j)"
    using b by (intro formatFileSize_index) simp_all
  moreover have "sizeUnit (int j) = (if b < 2 ^ 30 then ''MB'' else ''GB'')"
    by (simp add: j_def sizeUnit_values)
  moreover have "(1024 :: rat) ^ j = (if b < 2 ^ 30 then 2 ^ 20 else 2 ^ 30)"
    by (simp add: j_def)
  ultimately have size: "formatFileSize Math_log b
      = toFixed1 (of_nat b / (if b < 2 ^ 30 then 2 ^ 20 else 2 ^ 30)) @ '' ''
        @ (if b < 2 ^ 30 then ''MB'' else ''GB'')"
    by simp
  have "(0 :: rat) \<le> of_nat b / (if b < 2 ^ 30 then 2 ^ 20 else 2 ^ 30)"
    by simp
  from toFixed1_decimal [OF this] obtain ip d
    where t: "toFixed1 (of_nat b / (if b < 2 ^ 30 then 2 ^ 20 else 2 ^ 30)) = ip @ ''.'' @ [d]"
      and ip: "decimalNumeral ip" and d: "d \<in> set ''0123456789''"
      and near: "\<bar>(of_nat (10 * decimalValue ip + digitValue d) :: rat) / 10
                 - of_nat b / (if b < 2 ^ 30 then 2 ^ 20 else 2 ^ 30)\<bar> \<le> 1 / 20"
    by blast
  have "error (validateImageFile Math_log f)
          = Some (''File too large: '' @ formatFileSize Math_log b
                  @ ''. Maximum size: '' @ formatFileSize Math_log 52428800)"
    using known b by (simp add: validateImageFile_def Let_def b_def)
  then have "error (validateImageFile Math_log f)
                = Some (''File too large: '' @ ip @ ''.'' @ [d] @ '' ''
                        @ (if b < 2 ^ 30 then ''MB'' else ''GB'')
                        @ ''. Maximum size: 50.0 MB'')"
    unfolding size t max by simp
  with ip d near show "\<exists>ip d.
              error (validateImageFile Math_log f)
                = Some (''File too large: '' @ ip @ ''.'' @ [d] @ '' ''
                        @ (if fsize f < 2 ^ 30 then ''MB'' else ''GB'')
                        @ ''. Maximum size: 50.0 MB'')
            \<and> decimalNumeral ip \<and> d \<in> set ''0123456789''
            \<and> \<bar>(of_nat (10 * decimalValue ip + digitValue d) :: rat) / 10
                 - of_nat (fsize f) / (if fsize f < 2 ^ 30 then 2 ^ 20 else 2 ^ 30)\<bar> \<le> 1 / 20"
    unfolding b_def by blast
qed

lemma validateImageFile_below_1TiB_example:
  "ftype \<lparr>fname = ''scan.png'', ftype = ''image/png'', fsize = 62914560, fcontent = ''''\<rparr>
     \<in> set supportedTypes
   \<and> 52428800 < fsize \<lparr>fname = ''scan.png'', ftype = ''image/png'', fsize = 62914560, fcontent = ''''\<rparr>
   \<and> fsize \<lparr>fname = ''scan.png'', ftype = ''image/png'', fsize = 62914560, fcontent = ''''\<rparr> < 2 ^ 40
   \<and> exactIndex binaryLog 62914560 \<and> exactIndex binaryLog 52428800
   \<and> \<not> valid (validateImageFile binaryLog
               \<lparr>fname = ''scan.png'', ftype = ''image/png'', fsize = 62914560, fcontent = ''''\<rparr>)
   \<and> (\<exists>ip d. error (validateImageFile binaryLog
               \<lparr>fname = ''scan.png'', ftype = ''image/png'', fsize = 62914560, fcontent = ''''\<rparr>)
              = Some (''File too large: '' @ ip @ ''.'' @ [d] @ '' MB. Maximum size: 50.0 MB'')
            \<and> decimalNumeral ip \<and> d \<in> set ''0123456789''
            \<and> \<bar>(of_nat (10 * decimalValue ip + digitValue d) :: rat) / 10 - 60\<bar> \<le> 1 / 20)
   \<and> error (validateImageFile binaryLog
               \<lparr>fname = ''scan.png'', ftype = ''image/png'', fsize = 62914560, fcontent = ''''\<rparr>)
       = Some ''File too large: 60.0 MB. Maximum size: 50.0 MB''
   \<and> ftype \<lparr>fname = ''notes.txt'', ftype = ''text/plain'', fsize = 10, fcontent = ''0123456789''\<rparr>
       \<notin> set supportedTypes
   \<and> \<not> valid (validateImageFile binaryLog
               \<lparr>fname = ''notes.txt'', ftype = ''text/plain'', fsize = 10, fcontent = ''0123456789''\<rparr>)
   \<and> error (validateImageFile binaryLog
               \<lparr>fname = ''notes.txt'', ftype = ''text/plain'', fsize = 10, fcontent = ''0123456789''\<rparr>)
       = Some ''Unsupported file type: text/plain. Supported formats: JPEG, PNG, WebP, AVIF, BMP, TIFF, GIF''"
proof -
  let ?big = "\<lparr>fname = ''scan.png'', ftype = ''image/png'', fsize = 62914560, fcontent = ''''\<rparr>"
  let ?txt = "\<lparr>fname = ''notes.txt'', ftype = ''text/plain'', fsize = 10, fcontent = ''0123456789''\<rparr>"
  have in_types: "ftype ?big \<in> set supportedTypes"
    by (simp add: supportedTypes_def)
  have not_in_types: "ftype ?txt \<notin> set supportedTypes"
    by (simp add: supportedTypes_def)
  have over: "52428800 < fsize ?big" "fsize ?big < 2 ^ 40"
    by simp_all
  have engine: "exactIndex binaryLog (fsize ?big) \<and> exactIndex binaryLog 52428800"
    by (simp add: binaryLog_exact)
  note big = validateImageFile_below_1TiB [of binaryLog "?big"]
  note plain = validateImageFile_below_1TiB [of binaryLog "?txt"]
  have 1: "\<not> valid (validateImageFile binaryLog ?big)"
    using big over by simp
  from big in_types over engine
  have 2: "\<exists>ip d. error (validateImageFile binaryLog ?big)
              = Some (''File too large: '' @ ip @ ''.'' @ [d] @ '' MB. Maximum size: 50.0 MB'')
            \<and> decimalNumeral ip \<and> d \<in> set ''0123456789''
            \<and> \<bar>(of_nat (10 * decimalValue ip + digitValue d) :: rat) / 10 - 60\<bar> \<le> 1 / 20"
    by simp
  have 3: "error (validateImageFile binaryLog ?big)
             = Some ''File too large: 60.0 MB. Maximum size: 50.0 MB''"
  proof -
    have "formatFileSize binaryLog 52428800 = ''50.0 MB''"
      using binaryLog_exact(1) by (intro formatFileSize_maxSize) simp
    moreover have "formatFileSize binaryLog 62914560 = ''60.0 MB''"
    proof -
      have "binaryLog 1024 \<noteq> 0"
        by (simp add: binaryLog_values)
      moreover have "\<lfloor>binary64 (binaryLog 62914560 / binaryLog 1024)\<rfloor> = int 2"
        by (simp add: binaryLog_indices)
      ultimately have "formatFileSize binaryLog 62914560
          = toFixed1 (of_nat 62914560 / 1024 ^ 2) @ '' '' @ sizeUnit (int 2)"
        by (intro formatFileSize_index) simp_all
      also have "(of_nat 62914560 / 1024 ^ 2 :: rat) = 60"
        by simp
      finally show ?thesis
        by (simp add: toFixed1_values sizeUnit_values)
    qed
    ultimately show ?thesis
      by (simp add: validateImageFile_def supportedTypes_def Let_def)
  qed
  have 4: "\<not> valid (validateImageFile binaryLog ?txt)"
    using plain not_in_types by blast
  have 5: "error (validateImageFile binaryLog ?txt)
       = Some ''Unsupported file type: text/plain. Supported formats: JPEG, PNG, WebP, AVIF, BMP, TIFF, GIF''"
  proof -
    from plain not_in_types
    have "error (validateImageFile binaryLog ?txt)
            = Some (''Unsupported file type: '' @ ftype ?txt
                    @ ''. Supported formats: JPEG, PNG, WebP, AVIF, BMP, TIFF, GIF'')"
      by blast
    then show ?thesis
      by simp
  qed
  from in_types over engine 1 2 3 not_in_types 4 5 show ?thesis
    by simp
qed

lemma formatFileSize_60MiB: "formatFileSize binaryLog 62914560 = ''60.0 MB''"
proof -
  have "binaryLog 1024 \<noteq> 0"
    by (simp add: binaryLog_values)
  moreover have "\<lfloor>binary64 (binaryLog 62914560 / binaryLog 1024)\<rfloor> = int 2"
    by (simp add: binaryLog_indices)
  ultimately have "formatFileSize binaryLog 62914560
      = toFixed1 (of_nat 62914560 / 1024 ^ 2) @ '' '' @ sizeUnit (int 2)"
    by (intro formatFileSize_index) simp_all
  also have "(of_nat 62914560 / 1024 ^ 2 :: rat) = 60"
    by simp
  finally show ?thesis
    by (simp add: toFixed1_values sizeUnit_values)
qed

text \<open>
  The message for a PNG file of 2 TiB is the same for every \<open>Math.log\<close> with a relative
  error of at most \<open>2 ^ -50\<close>.
\<close>

lemma formatFileSize_2TiB_accurate:
  assumes "accurateLog Math_log"
  shows "formatFileSize Math_log 2199023255552 = ''2.0 undefined''"
proof -
  have K: "0 < ln (1024 :: real)"
    by simp
  have A: "0 < ln (real 2199023255552)"
    by simp
  have "(1024 :: real) = 2 ^ 10" "real 2199023255552 = 2 ^ 41"
    by simp_all
  then have "ln (1024 :: real) = real 10 * ln 2" "ln (real 2199023255552) = real 41 * ln 2"
    by (simp_all only: ln_realpow)
  then have q: "ln (real 2199023255552) / ln 1024 = 41 / 10"
    by simp
  from assms have a: "\<bar>real_of_rat (Math_log 2199023255552) - ln (real 2199023255552)\<bar>
                        \<le> ln (real 2199023255552) / 2 ^ 50"
    unfolding accurateLog_def by (rule allE [of _ 2199023255552]) simp
  from assms have "\<bar>real_of_rat (Math_log 1024) - ln (real 1024)\<bar> \<le> ln (real 1024) / 2 ^ 50"
    unfolding accurateLog_def by (rule allE [of _ 1024]) simp
  then have k: "\<bar>real_of_rat (Math_log 1024) - ln 1024\<bar> \<le> ln 1024 / 2 ^ 50"
    by simp
  have lo: "real_of_int 4 + 1 / 2 ^ 44 \<le> ln (real 2199023255552) / ln 1024"
    unfolding q by simp
  have hi: "ln (real 2199023255552) / ln 1024 \<le> real_of_int 4 + 1 - 1 / 2 ^ 44"
    unfolding q by simp
  have index: "\<lfloor>binary64 (Math_log 2199023255552 / Math_log 1024)\<rfloor> = int 4"
    using quotient_floor(1) [OF K A a k lo hi] by simp
  have nonzero: "Math_log 1024 \<noteq> 0"
    using quotient_floor(2) [OF K A a k lo hi] by simp
  from nonzero index have "formatFileSize Math_log 2199023255552
      = toFixed1 (of_nat 2199023255552 / 1024 ^ 4) @ '' '' @ sizeUnit (int 4)"
    by (intro formatFileSize_index) simp_all
  also have "(of_nat 2199023255552 / 1024 ^ 4 :: rat) = 2"
    by simp
  finally show ?thesis
    by (simp add: toFixed1_values sizeUnit_values)
qed

lemma validateImageFile_2TiB_accurate:
  assumes "accurateLog Math_log"
  shows "validateImageFile Math_log
           \<lparr>fname = ''scan.png'', ftype = ''image/png'', fsize = 2199023255552, fcontent = ''''\<rparr>
         = \<lparr>valid = False,
            error = Some ''File too large: 2.0 undefined. Maximum size: 50.0 MB''\<rparr>"
proof -
  have "formatFileSize Math_log 52428800 = ''50.0 MB''"
    using assms by (intro formatFileSize_maxSize) simp
  with formatFileSize_2TiB_accurate [OF assms] show ?thesis
    by (simp add: validateImageFile_def supportedTypes_def Let_def)
qed

text \<open>
  C7, at a PNG file of 2 TiB: the index of the unit is 4, past the end of \<open>sizes\<close>,
  which ends at \<open>GB\<close>, and the message is
  \<open>File too large: 2.0 undefined. Maximum size: 50.0 MB\<close>, with no unit. A PNG file of
  60 MiB gets \<open>File too large: 60.0 MB. Maximum size: 50.0 MB\<close>.
\<close>

theorem validateImageFile_prints_undefined_unit:
  "validateImageFile binaryLog
     \<lparr>fname = ''scan.png'', ftype = ''image/png'', fsize = 2199023255552, fcontent = ''''\<rparr>
     = \<lparr>valid = False,
        error = Some ''File too large: 2.0 undefined. Maximum size: 50.0 MB''\<rparr>
   \<and> \<lfloor>binary64 (binaryLog 2199023255552 / binaryLog 1024)\<rfloor> = 4
   \<and> sizeUnit 4 = ''undefined''
   \<and> length sizes = 4
   \<and> validateImageFile binaryLog
       \<lparr>fname = ''scan.png'', ftype = ''image/png'', fsize = 62914560, fcontent = ''''\<rparr>
     = \<lparr>valid = False,
        error = Some ''File too large: 60.0 MB. Maximum size: 50.0 MB''\<rparr>"
proof -
  have "formatFileSize binaryLog 52428800 = ''50.0 MB''"
    using binaryLog_exact(1) by (intro formatFileSize_maxSize) simp
  then show ?thesis
    by (simp add: validateImageFile_def supportedTypes_def formatFileSize_2TiB
          formatFileSize_60MiB binaryLog_indices sizeUnit_values sizes_def Let_def)
qed

lemma sanitized_punctuation: "sanitized ''???.png'' = []"
  by code_simp

lemma sanitized_photo: "sanitized ''My Photo!!.png'' = ''My_Photo''"
  by code_simp

lemma natString_clock0: "natString 1700000000000 = ''1700000000000''"
  by (simp add: natString.simps digitChar_def)

lemma natString_clock1: "natString 1700000000001 = ''1700000000001''"
  by (simp add: natString.simps digitChar_def)

text \<open>
  C8, as stated, fails: a name that sanitization empties is replaced by
  \<open>image_<Date.now()>\<close>, so two calls with the same arguments at different clock readings
  return different names.
\<close>

theorem generateProcessedFileName_clock_counterexample:
  "generateProcessedFileName 1700000000000 ''???.png'' None None = ''image_1700000000000''
   \<and> generateProcessedFileName 1700000000001 ''???.png'' None None = ''image_1700000000001''
   \<and> generateProcessedFileName 1700000000000 ''???.png'' None None
       \<noteq> generateProcessedFileName 1700000000001 ''???.png'' None None"
  by (simp add: generateProcessedFileName_def sanitizeFileName_def sanitized_punctuation
        natString_clock0 natString_clock1)

text \<open>
  C8, amended. Two calls of \<open>generateProcessedFileName\<close> with the same arguments return
  the same name, whatever the clock readings, provided the name that gets sanitized (the
  original name when no index is given; the prefix when an index and a non-empty prefix
  are given) keeps at least one character after sanitization. With an index and an absent
  or empty prefix nothing is sanitized and the condition is void.
\<close>

theorem generateProcessedFileName_deterministic:
  assumes "index = None \<longrightarrow> sanitized orig \<noteq> []"
    and "index \<noteq> None \<and> prefix' \<noteq> None \<and> prefix' \<noteq> Some [] \<longrightarrow> sanitized (the prefix') \<noteq> []"
  shows "generateProcessedFileName t1 orig prefix' index
           = generateProcessedFileName t2 orig prefix' index"
  using assms by (simp add: generateProcessedFileName_def sanitizeFileName_def)

theorem generateProcessedFileName_deterministic_witness:
  "sanitized ''My Photo!!.png'' \<noteq> []
   \<and> generateProcessedFileName 1700000000000 ''My Photo!!.png'' None None
       = generateProcessedFileName 1700000000001 ''My Photo!!.png'' None None
   \<and> generateProcessedFileName 1700000000001 ''My Photo!!.png'' None None = ''My_Photo''"
proof -
  have ne: "sanitized ''My Photo!!.png'' \<noteq> []"
    by (simp add: sanitized_photo)
  have v: "generateProcessedFileName 1700000000001 ''My Photo!!.png'' None None = ''My_Photo''"
    by (simp add: generateProcessedFileName_def sanitizeFileName_def sanitized_photo)
  from generateProcessedFileName_deterministic
         [of None "''My Photo!!.png''" None 1700000000000 1700000000001] ne v
  show ?thesis
    by simp
qed

lemma natString_small:
  "natString (Suc 0) = ''1''"
  "natString (Suc (Suc 0)) = ''2''"
  "natString (Suc (Suc (Suc 0))) = ''3''"
  by (simp_all add: natString.simps digitChar_def)

lemma roundTiesToEven_int: "roundTiesToEven (of_int m) = m"
  by (simp add: roundTiesToEven_def)

text \<open>An integer of absolute value up to \<open>2 ^ 53\<close> is a double.\<close>

lemma binary64_int:
  assumes "\<bar>k\<bar> \<le> 2 ^ 53"
  shows "binary64 (of_int k) = of_int k"
proof (cases "k = 0")
  case True
  then show ?thesis
    by (simp add: binary64_def)
next
  case False
  define x :: rat where "x = of_int k"
  have x0: "x \<noteq> 0"
    using False by (simp add: x_def)
  define e where "e = binaryExponent x - 52"
  have ax: "\<bar>x\<bar> \<le> 2 powi 53"
  proof -
    have "\<bar>x\<bar> = of_int \<bar>k\<bar>"
      by (simp add: x_def)
    also have "\<dots> \<le> of_int (2 ^ 53)"
      using assms by (simp only: of_int_le_iff)
    finally show ?thesis
      by simp
  qed
  from binaryExponent_bounds (1) [OF x0] ax
  have "(2 :: rat) powi binaryExponent x \<le> 2 powi 53"
    by linarith
  then have "binaryExponent x \<le> 53"
    by (rule power_int_le_imp_le_exp [rotated]) simp_all
  then have e: "e \<le> 1"
    by (simp add: e_def)
  have b: "binary64 x = of_int (roundTiesToEven (x / 2 powi e)) * 2 powi e"
    using x0 by (simp add: binary64_def e_def Let_def)
  show ?thesis
  proof (cases "e \<le> 0")
    case True
    define n where "n = nat (- e)"
    have "e = - int n"
      using True by (simp add: n_def)
    then have p: "(2 :: rat) powi e = inverse (2 ^ n)"
      by (simp add: power_int_minus)
    have "x / 2 powi e = of_int (k * 2 ^ n)"
      by (simp add: p x_def divide_inverse)
    then have "roundTiesToEven (x / 2 powi e) = k * 2 ^ n"
      by (simp only: roundTiesToEven_int)
    with b p show ?thesis
      by (simp add: x_def)
  next
    case False
    with e have e1: "e = 1"
      by simp
    then have "binaryExponent x = 53"
      by (simp add: e_def)
    with binaryExponent_bounds (1) [OF x0] have "2 powi 53 \<le> \<bar>x\<bar>"
      by simp
    with ax have "\<bar>x\<bar> = 2 powi 53"
      by linarith
    then have "(of_int \<bar>k\<bar> :: rat) = of_int (2 ^ 53)"
      by (simp add: x_def)
    then have "\<bar>k\<bar> = 2 ^ 53"
      by (simp only: of_int_eq_iff)
    then have "k = 2 ^ 53 \<or> k = - (2 ^ 53)"
      by linarith
    then have "x / 2 powi e = of_int (k div 2) \<and> 2 * (k div 2) = k"
      using e1 by (auto simp: x_def)
    then have "roundTiesToEven (x / 2 powi e) = k div 2" and "2 * (k div 2) = k"
      by (simp_all only: roundTiesToEven_int)
    with b e1 have "binary64 x = of_int (2 * (k div 2))"
      by simp
    with \<open>2 * (k div 2) = k\<close> show ?thesis
      by (simp add: x_def)
  qed
qed

lemma digitsOf_natString:
  "0 \<le> v \<Longrightarrow> digitsOf v = natString (nat v)"
proof (induction v rule: digitsOf.induct)
  case (1 v)
  show ?case
  proof (cases "v < 10")
    case True
    with 1 show ?thesis
      by (simp add: digitsOf.simps [of v] natString.simps [of "nat v"])
  next
    case False
    with 1 have "digitsOf (v div 10) = natString (nat (v div 10))"
      by simp
    with False 1 show ?thesis
      by (simp add: digitsOf.simps [of v] natString.simps [of "nat v"]
            nat_div_distrib nat_mod_distrib)
  qed
qed

text \<open>
  Up to \<open>2 ^ 53\<close> the text of an integer is its decimal numeral, after a minus sign when
  it is negative.
\<close>

lemma integerText_decimal:
  assumes "\<bar>k\<bar> \<le> 2 ^ 53"
  shows "0 \<le> k \<longrightarrow> decimalNumeral (integerText k) \<and> int (decimalValue (integerText k)) = k"
    and "k < 0 \<longrightarrow>
           (\<exists>s. integerText k = CHR ''-'' # s \<and> decimalNumeral s \<and> int (decimalValue s) = - k)"
  using assms natString_decimal [of "nat k"] natString_decimal [of "nat (- k)"]
  by (auto simp: integerText_def naturalText_def digitsOf_natString)

text \<open>The sum \<open>index + 1\<close> is exact for an index from \<open>- 2 ^ 53\<close> to below \<open>2 ^ 53\<close>.\<close>

lemma index_successor:
  assumes "- (2 ^ 53) \<le> i \<and> i < 2 ^ 53"
  shows "\<lfloor>binary64 (of_int i + 1)\<rfloor> = i + 1"
proof -
  have "\<bar>i + 1\<bar> \<le> 2 ^ 53"
    using assms by linarith
  then have "binary64 (of_int (i + 1)) = of_int (i + 1)"
    by (rule binary64_int)
  then have "\<lfloor>binary64 (of_int (i + 1))\<rfloor> = i + 1"
    by (simp only: floor_of_int)
  then show ?thesis
    by simp
qed

lemma integerText_values:
  "integerText 1 = ''1''"
  "integerText 10 = ''10''"
  "integerText 42 = ''42''"
  "integerText (- 2) = ''-2''"
  by code_simp+

text \<open>
  Beyond the exact range the name carries the text of the double \<open>index + 1\<close>: at the
  index \<open>2 ^ 53\<close> the sum is \<open>2 ^ 53\<close> again; at \<open>2 ^ 54 + 7\<close> the sum is \<open>2 ^ 54 + 8\<close>, printed
  with 16 significant digits; from \<open>10 ^ 21\<close> on the text has an exponent.
\<close>

lemma generateProcessedFileName_large_index:
  "generateProcessedFileName now orig (Some []) (Some 9007199254740992)
     = ''image_9007199254740992''"
  "generateProcessedFileName now orig (Some []) (Some 18014398509481991)
     = ''image_18014398509481990''"
  "generateProcessedFileName now orig (Some []) (Some (10 ^ 21 - 1)) = ''image_1e+21''"
proof -
  have "integerText \<lfloor>binary64 (of_int 9007199254740992 + 1)\<rfloor> = ''9007199254740992''"
    by code_simp
  then show "generateProcessedFileName now orig (Some []) (Some 9007199254740992)
     = ''image_9007199254740992''"
    by (simp add: generateProcessedFileName_def)
  have "integerText \<lfloor>binary64 (of_int 18014398509481991 + 1)\<rfloor> = ''18014398509481990''"
    by code_simp
  then show "generateProcessedFileName now orig (Some []) (Some 18014398509481991)
     = ''image_18014398509481990''"
    by (simp add: generateProcessedFileName_def)
  have "integerText \<lfloor>binary64 (of_int (10 ^ 21 - 1) + 1)\<rfloor> = ''1e+21''"
    by code_simp
  then show "generateProcessedFileName now orig (Some []) (Some (10 ^ 21 - 1)) = ''image_1e+21''"
    by (simp add: generateProcessedFileName_def)
qed

text \<open>
  C10. With the empty string as prefix and an index \<open>i\<close>, \<open>generateProcessedFileName\<close>
  returns what it returns without a prefix, a name that begins with \<open>image_\<close>: the empty
  prefix counts as absent. For an index from \<open>- 2 ^ 53\<close> to below \<open>2 ^ 53\<close>, where the sum
  \<open>i + 1\<close> is exact, the name is \<open>image_\<close> followed by the decimal numeral of \<open>i + 1\<close>, with
  a minus sign before the numeral when \<open>i + 1\<close> is negative. Index 0 gives \<open>image_1\<close>,
  index 41 gives \<open>image_42\<close>. The component, which builds the name itself, does the same
  for an empty \<open>namePrefix\<close>.
\<close>

theorem generateProcessedFileName_empty_prefix:
  "generateProcessedFileName now orig (Some []) (Some i)
     = generateProcessedFileName now orig None (Some i)
   \<and> take 6 (generateProcessedFileName now orig (Some []) (Some i)) = ''image_''
   \<and> (- (2 ^ 53) \<le> i \<and> i < 2 ^ 53 \<longrightarrow>
      (0 \<le> i + 1 \<longrightarrow>
         (\<exists>s. generateProcessedFileName now orig (Some []) (Some i) = ''image_'' @ s
              \<and> decimalNumeral s \<and> int (decimalValue s) = i + 1))
    \<and> (i + 1 < 0 \<longrightarrow>
         (\<exists>s. generateProcessedFileName now orig (Some []) (Some i) = ''image_-'' @ s
              \<and> decimalNumeral s \<and> int (decimalValue s) = - (i + 1))))
   \<and> generateProcessedFileName now orig (Some []) (Some 0) = ''image_1''
   \<and> generateProcessedFileName now orig (Some []) (Some 41) = ''image_42''
   \<and> generateProcessedFileName now orig (Some []) (Some (- 3)) = ''image_-2''
   \<and> (n + 1 < 2 ^ 53 \<longrightarrow>
        (\<exists>s. itemFileName (settings\<lparr>namePrefix := []\<rparr>) n = ''image_'' @ s
             \<and> decimalNumeral s \<and> decimalValue s = n + 1))
   \<and> itemFileName (settings\<lparr>namePrefix := []\<rparr>) 0 = ''image_1''"
proof (intro conjI impI)
  show "generateProcessedFileName now orig (Some []) (Some i)
     = generateProcessedFileName now orig None (Some i)"
    by (simp add: generateProcessedFileName_def)
  show "take 6 (generateProcessedFileName now orig (Some []) (Some i)) = ''image_''"
    by (simp add: generateProcessedFileName_def)
next
  assume range: "- (2 ^ 53) \<le> i \<and> i < 2 ^ 53" and "0 \<le> i + 1"
  then have "\<bar>i + 1\<bar> \<le> 2 ^ 53"
    by linarith
  from integerText_decimal (1) [OF this] \<open>0 \<le> i + 1\<close> index_successor [OF range]
  show "\<exists>s. generateProcessedFileName now orig (Some []) (Some i) = ''image_'' @ s
              \<and> decimalNumeral s \<and> int (decimalValue s) = i + 1"
    by (simp add: generateProcessedFileName_def)
next
  assume range: "- (2 ^ 53) \<le> i \<and> i < 2 ^ 53" and "i + 1 < 0"
  then have "\<bar>i + 1\<bar> \<le> 2 ^ 53"
    by linarith
  from integerText_decimal (2) [OF this] \<open>i + 1 < 0\<close> index_successor [OF range]
  show "\<exists>s. generateProcessedFileName now orig (Some []) (Some i) = ''image_-'' @ s
              \<and> decimalNumeral s \<and> int (decimalValue s) = - (i + 1)"
    by (auto simp: generateProcessedFileName_def)
next
  show "generateProcessedFileName now orig (Some []) (Some 0) = ''image_1''"
    using index_successor [of 0] by (simp add: generateProcessedFileName_def integerText_values)
  show "generateProcessedFileName now orig (Some []) (Some 41) = ''image_42''"
    using index_successor [of 41] by (simp add: generateProcessedFileName_def integerText_values)
  show "generateProcessedFileName now orig (Some []) (Some (- 3)) = ''image_-2''"
    using index_successor [of "- 3"]
    by (simp add: generateProcessedFileName_def integerText_values)
next
  assume "n + 1 < 2 ^ 53"
  with natString_decimal [of "n + 1"]
  show "\<exists>s. itemFileName (settings\<lparr>namePrefix := []\<rparr>) n = ''image_'' @ s
             \<and> decimalNumeral s \<and> decimalValue s = n + 1"
    by (simp add: itemFileName_def)
next
  show "itemFileName (settings\<lparr>namePrefix := []\<rparr>) 0 = ''image_1''"
    by (simp add: itemFileName_def natString_small)
qed

theorem generateProcessedFileName_empty_prefix_witness:
  "- (2 ^ 53) \<le> (9 :: int) \<and> (9 :: int) < 2 ^ 53 \<and> (0 :: int) \<le> 9 + 1
   \<and> (\<exists>s. generateProcessedFileName 1700000000000 ''holiday.jpg'' (Some []) (Some 9) = ''image_'' @ s
          \<and> decimalNumeral s \<and> int (decimalValue s) = 10)
   \<and> generateProcessedFileName 1700000000000 ''holiday.jpg'' (Some []) (Some 9) = ''image_10''
   \<and> (2 :: nat) + 1 < 2 ^ 53
   \<and> (\<exists>s. itemFileName (initialSettings\<lparr>namePrefix := []\<rparr>) 2 = ''image_'' @ s
          \<and> decimalNumeral s \<and> decimalValue s = 3)
   \<and> itemFileName (initialSettings\<lparr>namePrefix := []\<rparr>) 2 = ''image_3''"
proof -
  note name = generateProcessedFileName_empty_prefix
                [of 1700000000000 "''holiday.jpg''" 9 2 initialSettings,
                 THEN conjunct2, THEN conjunct2]
  have 1: "\<exists>s. generateProcessedFileName 1700000000000 ''holiday.jpg'' (Some []) (Some 9) = ''image_'' @ s
          \<and> decimalNumeral s \<and> int (decimalValue s) = 10"
    using name by simp
  have 2: "\<exists>s. itemFileName (initialSettings\<lparr>namePrefix := []\<rparr>) 2 = ''image_'' @ s
          \<and> decimalNumeral s \<and> decimalValue s = 3"
    using name by simp
  have 3: "generateProcessedFileName 1700000000000 ''holiday.jpg'' (Some []) (Some 9) = ''image_10''"
    using index_successor [of 9] by (simp add: generateProcessedFileName_def integerText_values)
  have 4: "itemFileName (initialSettings\<lparr>namePrefix := []\<rparr>) 2 = ''image_3''"
    by (simp add: itemFileName_def natString.simps digitChar_def)
  from 1 2 3 4 show ?thesis
    by simp
qed

section \<open>Properties of the component and the routes\<close>

lemma processItem_None_iff:
  "fst (processItem api settings i fileData world) = None \<longleftrightarrow>
     (\<forall>result. fst (processApi api (file' fileData)
                      (ProcessingSettings.extend (settings\<lparr>enableUpscaling := False\<rparr>)
                         (RequestSettings.fields (itemFileName settings i))) world)
               \<noteq> Some (Ok200 result))"
  by (auto simp: processItem_def Let_def split: prod.splits option.splits ProcessResponse.splits UpscaleResponse.splits)

lemma processLoop_iterations:
  "fst (processLoop api settings i files results world)
     = results @ [p. Some p \<leftarrow> iterations api settings i files world]"
proof (induction files arbitrary: i results world)
  case Nil
  show ?case by simp
next
  case (Cons fileData rest)
  show ?case
    by (cases "processItem api settings i fileData world")
       (auto simp: Cons.IH split: option.splits)
qed

lemma length_iterations: "length (iterations api settings i files world) = length files"
  by (induction files arbitrary: i world) (auto split: prod.splits)

lemma processItem_id:
  "fst (processItem api settings i fileData world) = Some p \<Longrightarrow> id' p = fileId fileData"
  by (auto simp: processItem_def Let_def basicImage_def
           split: prod.splits option.splits ProcessResponse.splits UpscaleResponse.splits if_splits)

lemma iterations_subseq:
  "subseq (map id' [p. Some p \<leftarrow> iterations api settings i files world]) (map fileId files)"
proof (induction files arbitrary: i world)
  case Nil
  show ?case by simp
next
  case (Cons fileData rest)
  obtain r world1 where step: "processItem api settings i fileData world = (r, world1)"
    by (cases "processItem api settings i fileData world")
  show ?case
  proof (cases r)
    case None
    with step Cons.IH [of "Suc i" world1] show ?thesis
      by (auto intro: list_emb_Cons)
  next
    case (Some p)
    with step have "id' p = fileId fileData"
      using processItem_id [of api settings i fileData world p] by simp
    with step Some Cons.IH [of "Suc i" world1] show ?thesis
      by simp
  qed
qed

lemma threeFiles_run:
  "fst (processImages (serverEndpoints noTokenEnv ''http://localhost:3000'') initialSettings
          threeFiles emptyServer)
   = Some
       [\<lparr>id' = ''id-a'', originalName = ''a.jpg'', processedName = ''image_1'',
         originalSize = \<lparr>width = 800, height = 600\<rparr>,
         finalSize = Some \<lparr>width = 800, height = 600\<rparr>,
         wasResized = False, wasUpscaled = False, scaleFactor = Some 1,
         downloadUrl = JStr ''/api/serve-image/1700000000000_image_1.png'',
         preview = JStr ''/api/serve-image/1700000000000_image_1.png''\<rparr>,
        \<lparr>id' = ''id-c'', originalName = ''c.jpg'', processedName = ''image_3'',
         originalSize = \<lparr>width = 800, height = 600\<rparr>,
         finalSize = Some \<lparr>width = 800, height = 600\<rparr>,
         wasResized = False, wasUpscaled = False, scaleFactor = Some 1,
         downloadUrl = JStr ''/api/serve-image/1700000000000_image_3.png'',
         preview = JStr ''/api/serve-image/1700000000000_image_3.png''\<rparr>]"
  by (simp add: processImages_def threeFiles_def photoA_def photoB_def photoC_def processItem_def serverEndpoints_def
        processImage_POST_def processDecoded_def upscaleImage_POST_def noTokenEnv_def
        initialSettings_def emptyServer_def itemFileName_def basicImage_def MAX_FILE_SIZE_def
        ProcessingSettings.extend_def RequestSettings.fields_def writeFile_def startsWith_def
        natString_small natString_clock0 Let_def)

lemma length_somes_le: "length [p. Some p \<leftarrow> xs] \<le> length xs"
  by (induction xs) (auto split: option.splits)

text \<open>
  C1, as stated, fails: an item whose request to \<open>/api/process-image\<close> is refused ends
  in the \<open>catch\<close> of the loop and adds nothing to \<open>results\<close>. For a batch of three
  files whose second one is too large, the list handed over has two entries, those of
  the first and the third file.
\<close>

theorem processImages_missing_outcome_counterexample:
  "length threeFiles = 3
   \<and> threeFiles ! 1 = photoB
   \<and> fst (processImage_POST noTokenEnv (Some (file' photoB))
            (Some (ProcessingSettings.extend (initialSettings\<lparr>enableUpscaling := False\<rparr>)
                     (RequestSettings.fields (itemFileName initialSettings 1))))
            emptyServer)
       = BadRequest ''File too large: 60.0MB (max: 50MB)''
   \<and> length (the (fst (processImages (serverEndpoints noTokenEnv ''http://localhost:3000'')
                           initialSettings threeFiles emptyServer)))
       = 2
   \<and> map id' (the (fst (processImages (serverEndpoints noTokenEnv ''http://localhost:3000'')
                           initialSettings threeFiles emptyServer)))
       = [''id-a'', ''id-c'']"
proof -
  have t: "toFixed1 60 = ''60.0''"
    by code_simp
  have "fst (processImage_POST noTokenEnv (Some (file' photoB))
            (Some (ProcessingSettings.extend (initialSettings\<lparr>enableUpscaling := False\<rparr>)
                     (RequestSettings.fields (itemFileName initialSettings 1))))
            emptyServer)
       = BadRequest ''File too large: 60.0MB (max: 50MB)''"
    by (simp add: processImage_POST_def photoB_def noTokenEnv_def MAX_FILE_SIZE_def t)
  then show ?thesis
    by (simp add: threeFiles_run) (simp add: threeFiles_def)
qed

text \<open>
  C1, amended. For a batch that is not empty, the list handed to
  \<open>onProcessingComplete\<close> consists of the images of the iterations that reached
  \<open>results.push\<close>, in the order of the files: there is one iteration per file, the list
  is at most as long as the batch, the ids of its entries are a subsequence of the ids
  of the files, and an iteration adds no entry exactly when the request to
  \<open>/api/process-image\<close> did not return an OK response.
\<close>

theorem processImages_results:
  assumes "files \<noteq> []"
  shows "fst (processImages api settings files world)
           = Some [p. Some p \<leftarrow> iterations api settings 0 files world]
       \<and> length (iterations api settings 0 files world) = length files
       \<and> length [p. Some p \<leftarrow> iterations api settings 0 files world] \<le> length files
       \<and> subseq (map id' [p. Some p \<leftarrow> iterations api settings 0 files world]) (map fileId files)
       \<and> (fst (processItem api settings i fileData w) = None \<longleftrightarrow>
            (\<forall>result. fst (processApi api (file' fileData)
                             (ProcessingSettings.extend (settings\<lparr>enableUpscaling := False\<rparr>)
                                (RequestSettings.fields (itemFileName settings i))) w)
                      \<noteq> Some (Ok200 result)))"
proof (intro conjI)
  have "fst (processImages api settings files world)
          = Some (fst (processLoop api settings 0 files [] world))"
    using assms by (simp add: processImages_def split: prod.splits)
  then show "fst (processImages api settings files world)
           = Some [p. Some p \<leftarrow> iterations api settings 0 files world]"
    by (simp add: processLoop_iterations)
  show len: "length (iterations api settings 0 files world) = length files"
    by (rule length_iterations)
  have "length [p. Some p \<leftarrow> iterations api settings 0 files world]
          \<le> length (iterations api settings 0 files world)"
    by (rule length_somes_le)
  with len show "length [p. Some p \<leftarrow> iterations api settings 0 files world] \<le> length files"
    by simp
  show "subseq (map id' [p. Some p \<leftarrow> iterations api settings 0 files world]) (map fileId files)"
    by (rule iterations_subseq)
  show "fst (processItem api settings i fileData w) = None \<longleftrightarrow>
            (\<forall>result. fst (processApi api (file' fileData)
                             (ProcessingSettings.extend (settings\<lparr>enableUpscaling := False\<rparr>)
                                (RequestSettings.fields (itemFileName settings i))) w)
                      \<noteq> Some (Ok200 result))"
    by (rule processItem_None_iff)
qed

theorem processImages_results_witness:
  "threeFiles \<noteq> []
   \<and> fst (processImages (serverEndpoints noTokenEnv ''http://localhost:3000'') initialSettings
            threeFiles emptyServer)
       = Some [p. Some p \<leftarrow> iterations (serverEndpoints noTokenEnv ''http://localhost:3000'')
                               initialSettings 0 threeFiles emptyServer]
   \<and> map id' [p. Some p \<leftarrow> iterations (serverEndpoints noTokenEnv ''http://localhost:3000'')
                               initialSettings 0 threeFiles emptyServer]
       = [''id-a'', ''id-c'']"
proof -
  have ne: "threeFiles \<noteq> []"
    by (simp add: threeFiles_def)
  from processImages_results [OF ne, of "serverEndpoints noTokenEnv ''http://localhost:3000''"
         initialSettings emptyServer]
  have r: "fst (processImages (serverEndpoints noTokenEnv ''http://localhost:3000'') initialSettings
            threeFiles emptyServer)
       = Some [p. Some p \<leftarrow> iterations (serverEndpoints noTokenEnv ''http://localhost:3000'')
                               initialSettings 0 threeFiles emptyServer]"
    by blast
  with threeFiles_run
  have "map id' [p. Some p \<leftarrow> iterations (serverEndpoints noTokenEnv ''http://localhost:3000'')
                               initialSettings 0 threeFiles emptyServer]
       = [''id-a'', ''id-c'']"
    by simp
  with ne r show ?thesis
    by blast
qed

lemma processItem_fallback:
  assumes "processApi api (file' fileData)
             (ProcessingSettings.extend (settings\<lparr>enableUpscaling := False\<rparr>)
                (RequestSettings.fields (itemFileName settings i))) world
           = (Some (Ok200 result), world1)"
    and "\<forall>url f s u. fst (upscaleApi api url (itemFileName settings i)
                            (ProcessResult.finalSize result) (targetSize settings) world1)
                     \<noteq> Some (UpscaleOk f s u)"
  shows "fst (processItem api settings i fileData world) = Some (basicImage fileData result)"
proof -
  let ?url = "if startsWith (ProcessResult.downloadUrl result) ''http''
              then ProcessResult.downloadUrl result
              else origin api @ ProcessResult.downloadUrl result"
  obtain u world2 where up: "upscaleApi api ?url (itemFileName settings i)
      (ProcessResult.finalSize result) (targetSize settings) world1 = (u, world2)"
    by (cases "upscaleApi api ?url (itemFileName settings i)
      (ProcessResult.finalSize result) (targetSize settings) world1")
  with assms(2) have "\<forall>f s v. u \<noteq> Some (UpscaleOk f s v)"
    by (metis fst_conv)
  then have "u = None \<or> (\<exists>m. u = Some (UpscaleError m))"
    by (cases u) (auto intro: UpscaleResponse.exhaust)
  with assms(1) up show ?thesis
    by (auto simp: processItem_def Let_def)
qed

lemma processDecoded_Ok:
  assumes "fst (processDecoded env f s osize server) = Ok200 r"
  shows "ProcessResult.success r
       \<and> (ProcessResult.wasUpscaled r
          \<or> (ProcessResult.scaleFactor r = Some 1
             \<and> ProcessResult.downloadUrl r
                 = ''/api/serve-image/'' @ natString (requestTime env) @ ''_'' @ fileName s @ ''.png''
             \<and> ProcessResult.finalSize r
                 = dimensions (calculateResizeDimensions binary64 osize (maxDimension s))))
       \<and> (\<not> enableUpscaling s \<longrightarrow> \<not> ProcessResult.wasUpscaled r)"
  using assms
  by (auto simp: processDecoded_def calculateResizeDimensions_def Let_def
           split: sum.splits if_splits prod.splits UpscaleResult.splits)

lemma handler_resize_in_doubles:
  "fst (processImage_POST
          (noTokenEnv\<lparr>sharpMetadata := (\<lambda>buffer. Inr \<lparr>metaWidth = Some 612, metaHeight = Some 1632\<rparr>)\<rparr>)
          (Some (file' photoA))
          (Some (ProcessingSettings.extend (initialSettings\<lparr>enableUpscaling := False\<rparr>)
                   (RequestSettings.fields ''image_1'')))
          emptyServer)
   = Ok200 \<lparr>success = True, processedName = ''image_1'',
             originalSize = \<lparr>width = 612, height = 1632\<rparr>,
             finalSize = \<lparr>width = 487, height = 1300\<rparr>,
             wasResized = True, wasUpscaled = False, scaleFactor = Some 1,
             downloadUrl = ''/api/serve-image/1700000000000_image_1.png'',
             preview = ''/api/serve-image/1700000000000_image_1.png''\<rparr>"
  using rounded_axes
  by (simp add: processImage_POST_def processDecoded_def noTokenEnv_def
        initialSettings_def emptyServer_def photoA_def MAX_FILE_SIZE_def
        ProcessingSettings.extend_def RequestSettings.fields_def writeFile_def
        natString_clock0 Let_def)

lemma processImage_POST_Ok:
  assumes "fst (processImage_POST env fileOpt settingsOpt server) = Ok200 r"
  shows "\<exists>f s osize server1. fileOpt = Some f \<and> settingsOpt = Some s
           \<and> fst (processDecoded env f s osize server1) = Ok200 r"
  using assms
  by (auto simp: processImage_POST_def Let_def
           split: option.splits if_splits sum.splits prod.splits)

lemma upscaleImage_POST_Ok_only_if:
  assumes "fst (upscaleImage_POST env imageUrl fileName' currentSize targetSize' server)
             = UpscaleOk f sz url"
  shows "apiToken env \<noteq> None \<and> apiToken env \<noteq> Some []
       \<and> (\<exists>input response output.
              replicateApi env input = Inr response
            \<and> apiBody response = Some output
            \<and> \<not> (isObject output \<and> noKeys output)
            \<and> 200 \<le> apiStatus response \<and> apiStatus response \<le> 299
            \<and> predictionUrl env output = Inr url
            \<and> truthy url)"
  using assms
  by (auto simp: upscaleImage_POST_def Let_def
           split: option.splits if_splits sum.splits)

lemma processImage_POST_basic:
  assumes "fst (processImage_POST env fileOpt (Some s) server) = Ok200 r"
  shows "ProcessResult.success r"
    and "\<not> enableUpscaling s \<Longrightarrow> \<not> ProcessResult.wasUpscaled r \<and> ProcessResult.scaleFactor r = Some 1"
proof -
  from processImage_POST_Ok [OF assms] obtain f osize server1
    where d: "fst (processDecoded env f s osize server1) = Ok200 r"
    by auto
  from processDecoded_Ok [OF d] show "ProcessResult.success r"
    by simp
  assume "\<not> enableUpscaling s"
  with processDecoded_Ok [OF d]
  show "\<not> ProcessResult.wasUpscaled r \<and> ProcessResult.scaleFactor r = Some 1"
    by blast
qed

lemma upscaleImage_POST_fails:
  assumes "apiToken env = None \<or> apiToken env = Some []
           \<or> (\<forall>input.
                 case replicateApi env input of
                   Inl m \<Rightarrow> True
                 | Inr resp \<Rightarrow>
                   (case apiBody resp of
                      None \<Rightarrow> True
                    | Some output \<Rightarrow>
                        (isObject output \<and> noKeys output)
                        \<or> \<not> (200 \<le> apiStatus resp \<and> apiStatus resp \<le> 299)
                        \<or> (\<forall>u. predictionUrl env output = Inr u \<longrightarrow> \<not> truthy u)))"
  shows "\<exists>m. fst (upscaleImage_POST env imageUrl fileName' currentSize targetSize' server)
               = UpscaleError m"
proof (cases "fst (upscaleImage_POST env imageUrl fileName' currentSize targetSize' server)")
  case (UpscaleError m)
  then show ?thesis by blast
next
  case (UpscaleOk f sz url)
  from upscaleImage_POST_Ok_only_if [OF this] obtain inp resp out
    where tok: "apiToken env \<noteq> None" "apiToken env \<noteq> Some []"
      and r: "replicateApi env inp = Inr resp" "apiBody resp = Some out"
             "\<not> (isObject out \<and> noKeys out)"
             "200 \<le> apiStatus resp \<and> apiStatus resp \<le> 299"
             "predictionUrl env out = Inr url" "truthy url"
    by blast
  from assms tok have "case replicateApi env inp of
                   Inl m \<Rightarrow> True
                 | Inr resp \<Rightarrow>
                   (case apiBody resp of
                      None \<Rightarrow> True
                    | Some output \<Rightarrow>
                        (isObject output \<and> noKeys output)
                        \<or> \<not> (200 \<le> apiStatus resp \<and> apiStatus resp \<le> 299)
                        \<or> (\<forall>u. predictionUrl env output = Inr u \<longrightarrow> \<not> truthy u))"
    by blast
  with r have False
    by simp
  then show ?thesis ..
qed

text \<open>
  The failures that the upscale endpoint reports are handled as intended: when the
  request to \<open>/api/process-image\<close> for an item succeeded and the upscale endpoint does
  not answer with a success, the item is pushed with the download URL, final size,
  \<open>wasUpscaled\<close> and \<open>scaleFactor\<close> of the basic result; and the route answers with an
  error when the token is missing, or every answer of the provider is a network failure,
  not JSON, an empty object, a status outside 200..299 or a prediction in which the
  route finds no value for the URL.
\<close>

lemma reported_upscale_failure_keeps_basic_result:
  "(processApi api (file' fileData)
       (ProcessingSettings.extend (settings\<lparr>enableUpscaling := False\<rparr>)
          (RequestSettings.fields (itemFileName settings i))) world
     = (Some (Ok200 result), world1)
    \<and> (\<forall>url f s u. fst (upscaleApi api url (itemFileName settings i)
                          (ProcessResult.finalSize result) (targetSize settings) world1)
                   \<noteq> Some (UpscaleOk f s u))
    \<longrightarrow> fst (processItem api settings i fileData world) = Some (basicImage fileData result)
        \<and> downloadUrl (basicImage fileData result) = JStr (ProcessResult.downloadUrl result)
        \<and> finalSize (basicImage fileData result) = Some (ProcessResult.finalSize result)
        \<and> wasUpscaled (basicImage fileData result) = ProcessResult.wasUpscaled result
        \<and> scaleFactor (basicImage fileData result) = ProcessResult.scaleFactor result)
   \<and> (fst (processImage_POST env (Some (file' fileData))
              (Some (ProcessingSettings.extend (settings\<lparr>enableUpscaling := False\<rparr>)
                       (RequestSettings.fields (itemFileName settings i)))) server)
         = Ok200 result
       \<and> (apiToken env = None \<or> apiToken env = Some []
           \<or> (\<forall>input.
                 case replicateApi env input of
                   Inl m \<Rightarrow> True
                 | Inr resp \<Rightarrow>
                   (case apiBody resp of
                      None \<Rightarrow> True
                    | Some output \<Rightarrow>
                        (isObject output \<and> noKeys output)
                        \<or> \<not> (200 \<le> apiStatus resp \<and> apiStatus resp \<le> 299)
                        \<or> (\<forall>u. predictionUrl env output = Inr u \<longrightarrow> \<not> truthy u))))
       \<longrightarrow> (\<exists>p. fst (processItem (serverEndpoints env host) settings i fileData server) = Some p
                \<and> downloadUrl p = JStr (ProcessResult.downloadUrl result)
                \<and> finalSize p = Some (ProcessResult.finalSize result)
                \<and> \<not> wasUpscaled p
                \<and> scaleFactor p = Some 1))"
proof (intro conjI impI)
  assume h: "processApi api (file' fileData)
       (ProcessingSettings.extend (settings\<lparr>enableUpscaling := False\<rparr>)
          (RequestSettings.fields (itemFileName settings i))) world
     = (Some (Ok200 result), world1)
    \<and> (\<forall>url f s u. fst (upscaleApi api url (itemFileName settings i)
                          (ProcessResult.finalSize result) (targetSize settings) world1)
                   \<noteq> Some (UpscaleOk f s u))"
  then show "fst (processItem api settings i fileData world) = Some (basicImage fileData result)"
    using processItem_fallback [of api fileData settings i world result world1] by blast
next
  show "downloadUrl (basicImage fileData result) = JStr (ProcessResult.downloadUrl result)"
    by (simp add: basicImage_def)
  show "finalSize (basicImage fileData result) = Some (ProcessResult.finalSize result)"
    by (simp add: basicImage_def)
  show "wasUpscaled (basicImage fileData result) = ProcessResult.wasUpscaled result"
    by (simp add: basicImage_def)
  show "scaleFactor (basicImage fileData result) = ProcessResult.scaleFactor result"
    by (simp add: basicImage_def)
next
  let ?req = "ProcessingSettings.extend (settings\<lparr>enableUpscaling := False\<rparr>)
                (RequestSettings.fields (itemFileName settings i))"
  let ?api = "serverEndpoints env host"
  assume h: "fst (processImage_POST env (Some (file' fileData)) (Some ?req) server) = Ok200 result
       \<and> (apiToken env = None \<or> apiToken env = Some []
           \<or> (\<forall>input.
                 case replicateApi env input of
                   Inl m \<Rightarrow> True
                 | Inr resp \<Rightarrow>
                   (case apiBody resp of
                      None \<Rightarrow> True
                    | Some output \<Rightarrow>
                        (isObject output \<and> noKeys output)
                        \<or> \<not> (200 \<le> apiStatus resp \<and> apiStatus resp \<le> 299)
                        \<or> (\<forall>u. predictionUrl env output = Inr u \<longrightarrow> \<not> truthy u))))"
  then have ok: "fst (processImage_POST env (Some (file' fileData)) (Some ?req) server) = Ok200 result"
    by blast
  let ?server1 = "snd (processImage_POST env (Some (file' fileData)) (Some ?req) server)"
  have basic: "processApi ?api (file' fileData) ?req server = (Some (Ok200 result), ?server1)"
    using ok
    by (cases "processImage_POST env (Some (file' fileData)) (Some ?req) server")
       (simp add: serverEndpoints_def)
  have failed: "\<forall>url f s u. fst (upscaleApi ?api url (itemFileName settings i)
                          (ProcessResult.finalSize result) (targetSize settings) ?server1)
                   \<noteq> Some (UpscaleOk f s u)"
  proof (intro allI)
    fix url f s u
    from h upscaleImage_POST_fails [of env url "itemFileName settings i"
           "ProcessResult.finalSize result" "targetSize settings" ?server1]
    obtain m where "fst (upscaleImage_POST env url (itemFileName settings i)
                      (ProcessResult.finalSize result) (targetSize settings) ?server1)
                    = UpscaleError m"
      by blast
    then show "fst (upscaleApi ?api url (itemFileName settings i)
                          (ProcessResult.finalSize result) (targetSize settings) ?server1)
                   \<noteq> Some (UpscaleOk f s u)"
      by (cases "upscaleImage_POST env url (itemFileName settings i)
                      (ProcessResult.finalSize result) (targetSize settings) ?server1")
         (simp add: serverEndpoints_def)
  qed
  have p: "fst (processItem ?api settings i fileData server) = Some (basicImage fileData result)"
    using basic failed by (rule processItem_fallback)
  have "\<not> enableUpscaling ?req"
    by (simp add: ProcessingSettings.extend_def)
  with processImage_POST_basic(2) [OF ok]
  have b: "\<not> ProcessResult.wasUpscaled result \<and> ProcessResult.scaleFactor result = Some 1"
    by blast
  show "\<exists>p. fst (processItem ?api settings i fileData server) = Some p
                \<and> downloadUrl p = JStr (ProcessResult.downloadUrl result)
                \<and> finalSize p = Some (ProcessResult.finalSize result)
                \<and> \<not> wasUpscaled p
                \<and> scaleFactor p = Some 1"
    using p b by (simp add: basicImage_def)
qed

lemma emptyObjectEnv_item:
  "fst (processItem (serverEndpoints emptyObjectEnv ''http://localhost:3000'') initialSettings 0
            photoA emptyServer)
       = Some \<lparr>id' = ''id-a'', originalName = ''a.jpg'', processedName = ''image_1'',
               originalSize = \<lparr>width = 800, height = 600\<rparr>,
               finalSize = Some \<lparr>width = 800, height = 600\<rparr>,
               wasResized = False, wasUpscaled = False, scaleFactor = Some 1,
               downloadUrl = JStr ''/api/serve-image/1700000000000_image_1.png'',
               preview = JStr ''/api/serve-image/1700000000000_image_1.png''\<rparr>"
  by (simp add: processItem_def serverEndpoints_def processImage_POST_def processDecoded_def
        upscaleImage_POST_def emptyObjectEnv_def noTokenEnv_def emptyServer_def
        initialSettings_def itemFileName_def basicImage_def photoA_def startsWith_def
        MAX_FILE_SIZE_def ProcessingSettings.extend_def RequestSettings.fields_def
        writeFile_def divide_js_def natString_small natString_clock0 Let_def)

lemma Math_round_2560: "Math_round 2560 = 2560"
  by code_simp

lemma numberOutputEnv_route:
  "fst (upscaleImage_POST numberOutputEnv
          ''http://localhost:3000/api/serve-image/1700000000000_image_1.png'' ''image_1''
          \<lparr>width = 100, height = 100\<rparr> 2560 serverWithImage)
     = UpscaleOk (Some (128 / 5)) (Some \<lparr>width = 2560, height = 2560\<rparr>) (JNum 123)"
  by (simp add: upscaleImage_POST_def numberOutputEnv_def upscalingEnv_def noTokenEnv_def
        serverWithImage_def divide_js_def predictionUrl_def scaledSize_def Math_round_2560 Let_def)

lemma numberOutputEnv_item:
  "fst (processItem (serverEndpoints numberOutputEnv ''http://localhost:3000'') initialSettings 0
          photoA emptyServer)
   = Some \<lparr>id' = ''id-a'', originalName = ''a.jpg'', processedName = ''image_1'',
           originalSize = \<lparr>width = 100, height = 100\<rparr>,
           finalSize = Some \<lparr>width = 2560, height = 2560\<rparr>,
           wasResized = False, wasUpscaled = True, scaleFactor = Some (128 / 5),
           downloadUrl = JNum 123, preview = JNum 123\<rparr>"
  by (simp add: processItem_def serverEndpoints_def processImage_POST_def processDecoded_def
        upscaleImage_POST_def numberOutputEnv_def upscalingEnv_def noTokenEnv_def emptyServer_def
        initialSettings_def itemFileName_def basicImage_def photoA_def startsWith_def
        MAX_FILE_SIZE_def ProcessingSettings.extend_def RequestSettings.fields_def
        writeFile_def divide_js_def predictionUrl_def scaledSize_def Math_round_2560
        natString_small natString_clock0 Let_def)

lemma numberOutputEnv_sibling:
  "fst (upscaleWithReplicate numberOutputEnv ''1700000000000_image_1.png'' ''image_1''
          \<lparr>width = 100, height = 100\<rparr> 2560 serverWithImage)
     = Inr (UpscaleFailed ''No output from Replicate'')"
  by (simp add: upscaleWithReplicate_def upscaleAttempt_def numberOutputEnv_def upscalingEnv_def
        noTokenEnv_def serverWithImage_def divide_js_def outputImageUrl_def Let_def)

lemma numberOutputEnv_handler:
  "fst (processImage_POST numberOutputEnv (Some (file' photoA))
          (Some (ProcessingSettings.extend initialSettings (RequestSettings.fields ''image_1'')))
          emptyServer)
   = Ok200 \<lparr>success = True, processedName = ''image_1'',
             originalSize = \<lparr>width = 100, height = 100\<rparr>,
             finalSize = \<lparr>width = 100, height = 100\<rparr>,
             wasResized = False, wasUpscaled = False, scaleFactor = Some 1,
             downloadUrl = ''/api/serve-image/1700000000000_image_1.png'',
             preview = ''/api/serve-image/1700000000000_image_1.png''\<rparr>"
  by (simp add: processImage_POST_def processDecoded_def upscaleWithReplicate_def
        upscaleAttempt_def numberOutputEnv_def upscalingEnv_def noTokenEnv_def
        initialSettings_def emptyServer_def photoA_def MAX_FILE_SIZE_def divide_js_def
        outputImageUrl_def ProcessingSettings.extend_def RequestSettings.fields_def writeFile_def
        natString_clock0 Let_def)

text \<open>
  C2, for a provider whose prediction has the status \<open>succeeded\<close> and the output
  \<open>[123]\<close>, an array without a URL, for a 100 x 100 image and target size 2560: the
  route \<open>/api/upscale-image\<close> takes the first element of the array for the URL without
  testing that it is a string, and answers with a success; the component pushes the item
  with \<open>wasUpscaled = true\<close>, scale factor 25.6, final size 2560 x 2560 and the number
  123 as download URL, where the basic result had the URL of the processed file, scale
  factor 1 and the size 100 x 100. \<open>upscaleWithReplicate\<close>, which tests the type of the
  element, fails on the same output, and the handler of \<open>/api/process-image\<close> keeps the
  basic result. An empty object is reported as an error by the route, and the item
  keeps the basic result.
\<close>

theorem upscale_accepts_output_without_url:
  "replicateApi numberOutputEnv \<lparr>image = ''PNG'', scale = Finite 4, face_enhance = False\<rparr>
     = Inr \<lparr>apiStatus = 201,
            apiBody = Some (JObj [(''status'', JStr ''succeeded''), (''output'', JArr [JNum 123])])\<rparr>
   \<and> fst (upscaleImage_POST numberOutputEnv
          ''http://localhost:3000/api/serve-image/1700000000000_image_1.png'' ''image_1''
          \<lparr>width = 100, height = 100\<rparr> 2560 serverWithImage)
       = UpscaleOk (Some (128 / 5)) (Some \<lparr>width = 2560, height = 2560\<rparr>) (JNum 123)
   \<and> fst (processImage_POST numberOutputEnv (Some (file' photoA))
          (Some (ProcessingSettings.extend (initialSettings\<lparr>enableUpscaling := False\<rparr>)
                   (RequestSettings.fields (itemFileName initialSettings 0))))
          emptyServer)
       = Ok200 \<lparr>success = True, processedName = ''image_1'',
                 originalSize = \<lparr>width = 100, height = 100\<rparr>,
                 finalSize = \<lparr>width = 100, height = 100\<rparr>,
                 wasResized = False, wasUpscaled = False, scaleFactor = Some 1,
                 downloadUrl = ''/api/serve-image/1700000000000_image_1.png'',
                 preview = ''/api/serve-image/1700000000000_image_1.png''\<rparr>
   \<and> fst (processItem (serverEndpoints numberOutputEnv ''http://localhost:3000'') initialSettings 0
            photoA emptyServer)
       = Some \<lparr>id' = ''id-a'', originalName = ''a.jpg'', processedName = ''image_1'',
               originalSize = \<lparr>width = 100, height = 100\<rparr>,
               finalSize = Some \<lparr>width = 2560, height = 2560\<rparr>,
               wasResized = False, wasUpscaled = True, scaleFactor = Some (128 / 5),
               downloadUrl = JNum 123, preview = JNum 123\<rparr>
   \<and> replicateRun numberOutputEnv \<lparr>image = ''PNG'', scale = Finite 4, face_enhance = False\<rparr>
       = Inr (JArr [JNum 123])
   \<and> fst (upscaleWithReplicate numberOutputEnv ''1700000000000_image_1.png'' ''image_1''
            \<lparr>width = 100, height = 100\<rparr> 2560 serverWithImage)
       = Inr (UpscaleFailed ''No output from Replicate'')
   \<and> fst (processImage_POST numberOutputEnv (Some (file' photoA))
          (Some (ProcessingSettings.extend initialSettings (RequestSettings.fields ''image_1'')))
          emptyServer)
       = Ok200 \<lparr>success = True, processedName = ''image_1'',
                 originalSize = \<lparr>width = 100, height = 100\<rparr>,
                 finalSize = \<lparr>width = 100, height = 100\<rparr>,
                 wasResized = False, wasUpscaled = False, scaleFactor = Some 1,
                 downloadUrl = ''/api/serve-image/1700000000000_image_1.png'',
                 preview = ''/api/serve-image/1700000000000_image_1.png''\<rparr>
   \<and> fst (processItem (serverEndpoints emptyObjectEnv ''http://localhost:3000'') initialSettings 0
            photoA emptyServer)
       = Some \<lparr>id' = ''id-a'', originalName = ''a.jpg'', processedName = ''image_1'',
               originalSize = \<lparr>width = 800, height = 600\<rparr>,
               finalSize = Some \<lparr>width = 800, height = 600\<rparr>,
               wasResized = False, wasUpscaled = False, scaleFactor = Some 1,
               downloadUrl = JStr ''/api/serve-image/1700000000000_image_1.png'',
               preview = JStr ''/api/serve-image/1700000000000_image_1.png''\<rparr>"
proof -
  have basic: "fst (processImage_POST numberOutputEnv (Some (file' photoA))
          (Some (ProcessingSettings.extend (initialSettings\<lparr>enableUpscaling := False\<rparr>)
                   (RequestSettings.fields (itemFileName initialSettings 0))))
          emptyServer)
       = Ok200 \<lparr>success = True, processedName = ''image_1'',
                 originalSize = \<lparr>width = 100, height = 100\<rparr>,
                 finalSize = \<lparr>width = 100, height = 100\<rparr>,
                 wasResized = False, wasUpscaled = False, scaleFactor = Some 1,
                 downloadUrl = ''/api/serve-image/1700000000000_image_1.png'',
                 preview = ''/api/serve-image/1700000000000_image_1.png''\<rparr>"
    by (simp add: processImage_POST_def processDecoded_def numberOutputEnv_def upscalingEnv_def
          noTokenEnv_def initialSettings_def emptyServer_def photoA_def itemFileName_def
          MAX_FILE_SIZE_def ProcessingSettings.extend_def RequestSettings.fields_def writeFile_def
          natString_small natString_clock0 Let_def)
  have answers: "replicateApi numberOutputEnv \<lparr>image = ''PNG'', scale = Finite 4, face_enhance = False\<rparr>
     = Inr \<lparr>apiStatus = 201,
            apiBody = Some (JObj [(''status'', JStr ''succeeded''), (''output'', JArr [JNum 123])])\<rparr>"
    "replicateRun numberOutputEnv \<lparr>image = ''PNG'', scale = Finite 4, face_enhance = False\<rparr>
       = Inr (JArr [JNum 123])"
    by (simp_all add: numberOutputEnv_def)
  from answers basic numberOutputEnv_route numberOutputEnv_item numberOutputEnv_sibling
       numberOutputEnv_handler emptyObjectEnv_item
  show ?thesis
    by simp
qed

section \<open>Properties of the upscale paths\<close>

lemma divide_js_pos: "0 < b \<Longrightarrow> divide_js a b = Finite (of_nat a / of_nat b)"
  by (simp add: divide_js_def)

lemma upscaleImage_POST_calls:
  assumes "apiToken env \<noteq> None" and "apiToken env \<noteq> Some []"
    and "0 < max (width currentSize) (height currentSize)"
    and "1 < (of_nat target :: rat) / of_nat (max (width currentSize) (height currentSize))"
    and "fetchUrl env imageUrl = Inr r" and "ok r"
  shows "providerCalls (snd (upscaleImage_POST env imageUrl name' currentSize target server))
           = providerCalls server
             @ [\<lparr>image = body r,
                 scale = Finite (min ((of_nat target :: rat)
                                        / of_nat (max (width currentSize) (height currentSize))) 4),
                 face_enhance = False\<rparr>]"
  using assms
  by (auto simp: upscaleImage_POST_def divide_js_def Let_def
           split: option.splits sum.splits)

lemma upscaleImage_POST_factor:
  assumes "0 < max (width currentSize) (height currentSize)"
    and "fst (upscaleImage_POST env imageUrl name' currentSize target server) = UpscaleOk sf sz url"
  shows "sf = Some ((of_nat target :: rat) / of_nat (max (width currentSize) (height currentSize)))"
    and "sz = Some \<lparr>width = nat (Math_round (of_nat (width currentSize)
                        * ((of_nat target :: rat) / of_nat (max (width currentSize) (height currentSize))))),
                    height = nat (Math_round (of_nat (height currentSize)
                        * ((of_nat target :: rat) / of_nat (max (width currentSize) (height currentSize)))))\<rparr>"
  using assms
  by (auto simp: upscaleImage_POST_def divide_js_def scaledSize_def Let_def
           split: option.splits sum.splits if_splits)

lemma upscaleAttempt_calls:
  assumes "map_of (processed server) imagePath = Some buffer"
  shows "providerCalls (snd (upscaleAttempt env imagePath name' factor server))
           = providerCalls server
             @ [\<lparr>image = buffer, scale = Math_min factor 4, face_enhance = False\<rparr>]"
  using assms
  by (auto simp: upscaleAttempt_def Let_def writeFile_def
           split: option.splits sum.splits if_splits prod.splits)

lemma upscaleAttempt_factor:
  assumes "fst (upscaleAttempt env imagePath name' factor server) = Inr (Upscaled sf sz url)"
  shows "sf = factor"
  using assms
  by (auto simp: upscaleAttempt_def Let_def
           split: option.splits sum.splits if_splits prod.splits)

lemma upscaleWithReplicate_calls:
  assumes "apiToken env \<noteq> None" and "apiToken env \<noteq> Some []"
    and "0 < max (width currentSize) (height currentSize)"
    and "1 < (of_nat target :: rat) / of_nat (max (width currentSize) (height currentSize))"
    and "map_of (processed server) imagePath = Some buffer"
  shows "providerCalls (snd (upscaleWithReplicate env imagePath name' currentSize target server))
           = providerCalls server
             @ [\<lparr>image = buffer,
                 scale = Finite (min ((of_nat target :: rat)
                                        / of_nat (max (width currentSize) (height currentSize))) 4),
                 face_enhance = False\<rparr>]"
proof -
  let ?f = "Finite ((of_nat target :: rat) / of_nat (max (width currentSize) (height currentSize)))"
  have d: "divide_js target (max (width currentSize) (height currentSize)) = ?f"
    using assms(3) by (rule divide_js_pos)
  have "snd (upscaleWithReplicate env imagePath name' currentSize target server)
          = snd (upscaleAttempt env imagePath name' ?f server)"
    using assms(1,2,4) by (auto simp: upscaleWithReplicate_def d Let_def split: prod.splits sum.splits)
  with upscaleAttempt_calls [OF assms(5), of env name' ?f] show ?thesis
    by simp
qed

lemma upscaleWithReplicate_factor:
  assumes "0 < max (width currentSize) (height currentSize)"
    and "fst (upscaleWithReplicate env imagePath name' currentSize target server)
           = Inr (Upscaled sf sz url)"
  shows "sf = Finite ((of_nat target :: rat) / of_nat (max (width currentSize) (height currentSize)))"
proof -
  let ?f = "Finite ((of_nat target :: rat) / of_nat (max (width currentSize) (height currentSize)))"
  have d: "divide_js target (max (width currentSize) (height currentSize)) = ?f"
    using assms(1) by (rule divide_js_pos)
  from assms(2) have "fst (upscaleAttempt env imagePath name' ?f server) = Inr (Upscaled sf sz url)"
    by (auto simp: upscaleWithReplicate_def d Let_def split: if_splits prod.splits sum.splits)
  then show ?thesis
    by (rule upscaleAttempt_factor)
qed

lemma processItem_upscaled:
  assumes "fst (processImage_POST env (Some (file' fileData))
              (Some (ProcessingSettings.extend (settings\<lparr>enableUpscaling := False\<rparr>)
                       (RequestSettings.fields (itemFileName settings i)))) server)
         = Ok200 result"
    and "0 < max (width (ProcessResult.finalSize result)) (height (ProcessResult.finalSize result))"
    and "fst (processItem (serverEndpoints env host) settings i fileData server) = Some p"
    and "wasUpscaled p"
  shows "scaleFactor p
           = Some ((of_nat (targetSize settings) :: rat)
                   / of_nat (max (width (ProcessResult.finalSize result))
                                 (height (ProcessResult.finalSize result))))"
proof -
  let ?req = "ProcessingSettings.extend (settings\<lparr>enableUpscaling := False\<rparr>)
                (RequestSettings.fields (itemFileName settings i))"
  obtain server1 where post: "processImage_POST env (Some (file' fileData)) (Some ?req) server
                = (Ok200 result, server1)"
    using assms(1) by (cases "processImage_POST env (Some (file' fileData)) (Some ?req) server") simp
  let ?url = "if startsWith (ProcessResult.downloadUrl result) ''http''
              then ProcessResult.downloadUrl result
              else host @ ProcessResult.downloadUrl result"
  let ?up = "upscaleImage_POST env ?url (itemFileName settings i)
               (ProcessResult.finalSize result) (targetSize settings) server1"
  have "\<not> enableUpscaling ?req"
    by (simp add: ProcessingSettings.extend_def)
  with processImage_POST_basic(2) [OF assms(1)]
  have b: "\<not> ProcessResult.wasUpscaled result"
    by blast
  obtain u server2 where up: "?up = (u, server2)"
    by (cases ?up)
  show ?thesis
  proof (cases u)
    case (UpscaleError m)
    with assms(3,4) post up b show ?thesis
      by (auto simp: processItem_def serverEndpoints_def basicImage_def Let_def split: if_splits)
  next
    case (UpscaleOk sf sz url)
    with up have "fst ?up = UpscaleOk sf sz url"
      by simp
    from upscaleImage_POST_factor(1) [OF assms(2) this]
    have sf: "sf = Some ((of_nat (targetSize settings) :: rat)
                   / of_nat (max (width (ProcessResult.finalSize result))
                                 (height (ProcessResult.finalSize result))))" .
    from assms(3,4) post up b UpscaleOk sf show ?thesis
      by (auto simp: processItem_def serverEndpoints_def basicImage_def Let_def split: if_splits)
  qed
qed

lemma upscalingEnv_route:
  "upscaleImage_POST upscalingEnv
     ''http://localhost:3000/api/serve-image/1700000000000_image_1.png'' ''image_1''
     \<lparr>width = 100, height = 100\<rparr> 2560 serverWithImage
   = (UpscaleOk (Some (128 / 5)) (Some \<lparr>width = 2560, height = 2560\<rparr>)
        (JStr ''https://replicate.delivery/out.png''),
      serverWithImage
        \<lparr>providerCalls := [\<lparr>image = ''PNG'', scale = Finite 4, face_enhance = False\<rparr>]\<rparr>)"
  by (simp add: upscaleImage_POST_def upscalingEnv_def noTokenEnv_def serverWithImage_def
        divide_js_def predictionUrl_def scaledSize_def Math_round_2560 Let_def)

lemma upscalingEnv_sibling:
  "upscaleWithReplicate upscalingEnv ''1700000000000_image_1.png'' ''image_1''
     \<lparr>width = 100, height = 100\<rparr> 2560 serverWithImage
   = (Inr (Upscaled (Finite (128 / 5)) \<lparr>width = 400, height = 400\<rparr>
             ''/api/serve-image/upscaled_1700000000001_image_1.png''),
      \<lparr>uploads = [(''1700000000000_a.jpg'', ''A'')],
       processed = [(''1700000000000_image_1.png'', ''PNG''),
                    (''upscaled_1700000000001_image_1.png'', ''UPSCALED'')],
       providerCalls = [\<lparr>image = ''PNG'', scale = Finite 4, face_enhance = False\<rparr>]\<rparr>)"
  by (simp add: upscaleWithReplicate_def upscaleAttempt_def upscalingEnv_def noTokenEnv_def
        serverWithImage_def divide_js_def outputImageUrl_def writeFile_def
        natString_clock1 Let_def)

text \<open>
  C3, at a 100 x 100 image with target size 2560: the route \<open>/api/upscale-image\<close>, the
  one the component calls, asks the provider for scale 4 and reports the final size
  2560 x 2560, the current size times the computed factor 25.6, although the image the
  provider returned decodes to 400 x 400. It never fetches or decodes that image.
  \<open>upscaleWithReplicate\<close>, on the same input, reports the measured 400 x 400.
\<close>

theorem upscaleImage_reports_computed_size:
  "fst (upscaleImage_POST upscalingEnv
          ''http://localhost:3000/api/serve-image/1700000000000_image_1.png'' ''image_1''
          \<lparr>width = 100, height = 100\<rparr> 2560 serverWithImage)
     = UpscaleOk (Some (128 / 5)) (Some \<lparr>width = 2560, height = 2560\<rparr>)
         (JStr ''https://replicate.delivery/out.png'')
   \<and> providerCalls (snd (upscaleImage_POST upscalingEnv
          ''http://localhost:3000/api/serve-image/1700000000000_image_1.png'' ''image_1''
          \<lparr>width = 100, height = 100\<rparr> 2560 serverWithImage))
       = [\<lparr>image = ''PNG'', scale = Finite 4, face_enhance = False\<rparr>]
   \<and> fetchUrl upscalingEnv ''https://replicate.delivery/out.png''
       = Inr \<lparr>ok = True, statusText = ''OK'', body = ''UPSCALED''\<rparr>
   \<and> sharpMetadata upscalingEnv ''UPSCALED''
       = Inr \<lparr>metaWidth = Some 400, metaHeight = Some 400\<rparr>
   \<and> fst (upscaleWithReplicate upscalingEnv ''1700000000000_image_1.png'' ''image_1''
            \<lparr>width = 100, height = 100\<rparr> 2560 serverWithImage)
       = Inr (Upscaled (Finite (128 / 5)) \<lparr>width = 400, height = 400\<rparr>
                ''/api/serve-image/upscaled_1700000000001_image_1.png'')"
  by (simp add: upscalingEnv_route upscalingEnv_sibling) (simp add: upscalingEnv_def)

text \<open>
  C4. With a positive longer axis and a computed factor
  \<open>f = targetSize / max(width, height) > 1\<close>, each of the two upscale paths sends the
  provider the scale \<open>min(f, 4)\<close> (once the token is present and the image is at hand),
  and a successful upscale reports the scale factor \<open>f\<close> itself: in the response of
  \<open>/api/upscale-image\<close>, in the result of \<open>upscaleWithReplicate\<close>, and in the image the
  component pushes for the item. For \<open>f > 4\<close> the scale sent is less than the factor
  reported.
\<close>

theorem provider_scale_is_clamped:
  "(apiToken env \<noteq> None \<and> apiToken env \<noteq> Some []
    \<and> 0 < max (width currentSize) (height currentSize)
    \<and> 1 < (of_nat target :: rat) / of_nat (max (width currentSize) (height currentSize))
    \<and> fetchUrl env imageUrl = Inr r \<and> ok r
    \<longrightarrow> providerCalls (snd (upscaleImage_POST env imageUrl name' currentSize target server))
          = providerCalls server
            @ [\<lparr>image = body r,
                scale = Finite (min ((of_nat target :: rat)
                                       / of_nat (max (width currentSize) (height currentSize))) 4),
                face_enhance = False\<rparr>])
   \<and> (0 < max (width currentSize) (height currentSize)
       \<and> fst (upscaleImage_POST env imageUrl name' currentSize target server) = UpscaleOk sf sz url
       \<longrightarrow> sf = Some ((of_nat target :: rat) / of_nat (max (width currentSize) (height currentSize))))
   \<and> (apiToken env \<noteq> None \<and> apiToken env \<noteq> Some []
       \<and> 0 < max (width currentSize) (height currentSize)
       \<and> 1 < (of_nat target :: rat) / of_nat (max (width currentSize) (height currentSize))
       \<and> map_of (processed server) imagePath = Some buffer
       \<longrightarrow> providerCalls (snd (upscaleWithReplicate env imagePath name' currentSize target server))
             = providerCalls server
               @ [\<lparr>image = buffer,
                   scale = Finite (min ((of_nat target :: rat)
                                          / of_nat (max (width currentSize) (height currentSize))) 4),
                   face_enhance = False\<rparr>])
   \<and> (0 < max (width currentSize) (height currentSize)
       \<and> fst (upscaleWithReplicate env imagePath name' currentSize target server)
           = Inr (Upscaled factor usize uurl)
       \<longrightarrow> factor = Finite ((of_nat target :: rat)
                              / of_nat (max (width currentSize) (height currentSize))))
   \<and> (fst (processImage_POST env (Some (file' fileData))
              (Some (ProcessingSettings.extend (settings\<lparr>enableUpscaling := False\<rparr>)
                       (RequestSettings.fields (itemFileName settings i)))) server)
         = Ok200 result
       \<and> 0 < max (width (ProcessResult.finalSize result)) (height (ProcessResult.finalSize result))
       \<and> fst (processItem (serverEndpoints env host) settings i fileData server) = Some p
       \<and> wasUpscaled p
       \<longrightarrow> scaleFactor p
             = Some ((of_nat (targetSize settings) :: rat)
                     / of_nat (max (width (ProcessResult.finalSize result))
                                   (height (ProcessResult.finalSize result)))))
   \<and> (4 < (of_nat target :: rat) / of_nat (max (width currentSize) (height currentSize))
       \<longrightarrow> min ((of_nat target :: rat) / of_nat (max (width currentSize) (height currentSize))) 4
             < of_nat target / of_nat (max (width currentSize) (height currentSize)))"
proof (intro conjI impI)
  assume "apiToken env \<noteq> None \<and> apiToken env \<noteq> Some []
    \<and> 0 < max (width currentSize) (height currentSize)
    \<and> 1 < (of_nat target :: rat) / of_nat (max (width currentSize) (height currentSize))
    \<and> fetchUrl env imageUrl = Inr r \<and> ok r"
  then show "providerCalls (snd (upscaleImage_POST env imageUrl name' currentSize target server))
          = providerCalls server
            @ [\<lparr>image = body r,
                scale = Finite (min ((of_nat target :: rat)
                                       / of_nat (max (width currentSize) (height currentSize))) 4),
                face_enhance = False\<rparr>]"
    using upscaleImage_POST_calls [of env currentSize target imageUrl r name' server] by blast
next
  assume "0 < max (width currentSize) (height currentSize)
       \<and> fst (upscaleImage_POST env imageUrl name' currentSize target server) = UpscaleOk sf sz url"
  then show "sf = Some ((of_nat target :: rat) / of_nat (max (width currentSize) (height currentSize)))"
    using upscaleImage_POST_factor(1) [of currentSize env imageUrl name' target server sf sz url]
    by blast
next
  assume "apiToken env \<noteq> None \<and> apiToken env \<noteq> Some []
       \<and> 0 < max (width currentSize) (height currentSize)
       \<and> 1 < (of_nat target :: rat) / of_nat (max (width currentSize) (height currentSize))
       \<and> map_of (processed server) imagePath = Some buffer"
  then show "providerCalls (snd (upscaleWithReplicate env imagePath name' currentSize target server))
             = providerCalls server
               @ [\<lparr>image = buffer,
                   scale = Finite (min ((of_nat target :: rat)
                                          / of_nat (max (width currentSize) (height currentSize))) 4),
                   face_enhance = False\<rparr>]"
    using upscaleWithReplicate_calls [of env currentSize target server imagePath buffer name']
    by blast
next
  assume "0 < max (width currentSize) (height currentSize)
       \<and> fst (upscaleWithReplicate env imagePath name' currentSize target server)
           = Inr (Upscaled factor usize uurl)"
  then show "factor = Finite ((of_nat target :: rat)
                              / of_nat (max (width currentSize) (height currentSize)))"
    using upscaleWithReplicate_factor
            [of currentSize env imagePath name' target server factor usize uurl]
    by blast
next
  assume "fst (processImage_POST env (Some (file' fileData))
              (Some (ProcessingSettings.extend (settings\<lparr>enableUpscaling := False\<rparr>)
                       (RequestSettings.fields (itemFileName settings i)))) server)
         = Ok200 result
       \<and> 0 < max (width (ProcessResult.finalSize result)) (height (ProcessResult.finalSize result))
       \<and> fst (processItem (serverEndpoints env host) settings i fileData server) = Some p
       \<and> wasUpscaled p"
  then show "scaleFactor p
             = Some ((of_nat (targetSize settings) :: rat)
                     / of_nat (max (width (ProcessResult.finalSize result))
                                   (height (ProcessResult.finalSize result))))"
    using processItem_upscaled [of env fileData settings i server result host p] by blast
next
  assume "4 < (of_nat target :: rat) / of_nat (max (width currentSize) (height currentSize))"
  then show "min ((of_nat target :: rat) / of_nat (max (width currentSize) (height currentSize))) 4
             < of_nat target / of_nat (max (width currentSize) (height currentSize))"
    by simp
qed

lemma upscalingEnv_basic:
  "fst (processImage_POST upscalingEnv (Some (file' photoA))
          (Some (ProcessingSettings.extend (initialSettings\<lparr>enableUpscaling := False\<rparr>)
                   (RequestSettings.fields (itemFileName initialSettings 0))))
          emptyServer)
   = Ok200 \<lparr>success = True, processedName = ''image_1'',
             originalSize = \<lparr>width = 100, height = 100\<rparr>,
             finalSize = \<lparr>width = 100, height = 100\<rparr>,
             wasResized = False, wasUpscaled = False, scaleFactor = Some 1,
             downloadUrl = ''/api/serve-image/1700000000000_image_1.png'',
             preview = ''/api/serve-image/1700000000000_image_1.png''\<rparr>"
  by (simp add: processImage_POST_def processDecoded_def upscalingEnv_def noTokenEnv_def
        initialSettings_def emptyServer_def photoA_def itemFileName_def MAX_FILE_SIZE_def
        ProcessingSettings.extend_def RequestSettings.fields_def writeFile_def
        natString_small natString_clock0 Let_def)

lemma upscalingEnv_item:
  "fst (processItem (serverEndpoints upscalingEnv ''http://localhost:3000'') initialSettings 0
          photoA emptyServer)
   = Some \<lparr>id' = ''id-a'', originalName = ''a.jpg'', processedName = ''image_1'',
           originalSize = \<lparr>width = 100, height = 100\<rparr>,
           finalSize = Some \<lparr>width = 2560, height = 2560\<rparr>,
           wasResized = False, wasUpscaled = True, scaleFactor = Some (128 / 5),
           downloadUrl = JStr ''https://replicate.delivery/out.png'',
           preview = JStr ''https://replicate.delivery/out.png''\<rparr>"
  by (simp add: processItem_def serverEndpoints_def processImage_POST_def processDecoded_def
        upscaleImage_POST_def upscalingEnv_def noTokenEnv_def emptyServer_def
        initialSettings_def itemFileName_def basicImage_def photoA_def startsWith_def
        MAX_FILE_SIZE_def ProcessingSettings.extend_def RequestSettings.fields_def
        writeFile_def divide_js_def predictionUrl_def scaledSize_def Math_round_2560
        natString_small natString_clock0 Let_def)

theorem provider_scale_is_clamped_witness:
  "apiToken upscalingEnv \<noteq> None \<and> apiToken upscalingEnv \<noteq> Some []
   \<and> 0 < max (width \<lparr>width = 100, height = 100\<rparr>) (height \<lparr>width = 100, height = 100\<rparr>)
   \<and> (1 :: rat) < 2560 / 100 \<and> (4 :: rat) < 2560 / 100
   \<and> providerCalls (snd (upscaleImage_POST upscalingEnv
          ''http://localhost:3000/api/serve-image/1700000000000_image_1.png'' ''image_1''
          \<lparr>width = 100, height = 100\<rparr> 2560 serverWithImage))
       = [\<lparr>image = ''PNG'', scale = Finite 4, face_enhance = False\<rparr>]
   \<and> fst (upscaleImage_POST upscalingEnv
          ''http://localhost:3000/api/serve-image/1700000000000_image_1.png'' ''image_1''
          \<lparr>width = 100, height = 100\<rparr> 2560 serverWithImage)
       = UpscaleOk (Some (128 / 5)) (Some \<lparr>width = 2560, height = 2560\<rparr>)
           (JStr ''https://replicate.delivery/out.png'')
   \<and> providerCalls (snd (upscaleWithReplicate upscalingEnv ''1700000000000_image_1.png''
          ''image_1'' \<lparr>width = 100, height = 100\<rparr> 2560 serverWithImage))
       = [\<lparr>image = ''PNG'', scale = Finite 4, face_enhance = False\<rparr>]
   \<and> fst (upscaleWithReplicate upscalingEnv ''1700000000000_image_1.png''
          ''image_1'' \<lparr>width = 100, height = 100\<rparr> 2560 serverWithImage)
       = Inr (Upscaled (Finite (128 / 5)) \<lparr>width = 400, height = 400\<rparr>
                ''/api/serve-image/upscaled_1700000000001_image_1.png'')
   \<and> fst (processItem (serverEndpoints upscalingEnv ''http://localhost:3000'') initialSettings 0
            photoA emptyServer)
       = Some \<lparr>id' = ''id-a'', originalName = ''a.jpg'', processedName = ''image_1'',
               originalSize = \<lparr>width = 100, height = 100\<rparr>,
               finalSize = Some \<lparr>width = 2560, height = 2560\<rparr>,
               wasResized = False, wasUpscaled = True, scaleFactor = Some (128 / 5),
               downloadUrl = JStr ''https://replicate.delivery/out.png'',
               preview = JStr ''https://replicate.delivery/out.png''\<rparr>"
proof -
  let ?size = "\<lparr>width = 100, height = 100\<rparr>"
  let ?url = "''http://localhost:3000/api/serve-image/1700000000000_image_1.png''"
  let ?fetched = "\<lparr>ok = True, statusText = ''OK'', body = ''PNG''\<rparr>"
  let ?result = "\<lparr>success = True, processedName = ''image_1'',
             originalSize = \<lparr>width = 100, height = 100\<rparr>,
             finalSize = \<lparr>width = 100, height = 100\<rparr>,
             wasResized = False, wasUpscaled = False, scaleFactor = Some 1,
             downloadUrl = ''/api/serve-image/1700000000000_image_1.png'',
             preview = ''/api/serve-image/1700000000000_image_1.png''\<rparr>"
  let ?p = "\<lparr>id' = ''id-a'', originalName = ''a.jpg'', processedName = ''image_1'',
           originalSize = \<lparr>width = 100, height = 100\<rparr>,
           finalSize = Some \<lparr>width = 2560, height = 2560\<rparr>,
           wasResized = False, wasUpscaled = True, scaleFactor = Some (128 / 5),
           downloadUrl = JStr ''https://replicate.delivery/out.png'',
           preview = JStr ''https://replicate.delivery/out.png''\<rparr>"
  have tok: "apiToken upscalingEnv \<noteq> None \<and> apiToken upscalingEnv \<noteq> Some []"
    by (simp add: upscalingEnv_def)
  have fetched: "fetchUrl upscalingEnv ?url = Inr ?fetched \<and> ok ?fetched"
    by (simp add: upscalingEnv_def)
  have stored: "map_of (processed serverWithImage) ''1700000000000_image_1.png'' = Some ''PNG''"
    by (simp add: serverWithImage_def)
  have empty: "providerCalls serverWithImage = []"
    by (simp add: serverWithImage_def)
  note routes = provider_scale_is_clamped
      [where env = upscalingEnv and currentSize = ?size and target = 2560 and imageUrl = ?url
         and r = ?fetched and name' = "''image_1''" and server = serverWithImage
         and imagePath = "''1700000000000_image_1.png''" and buffer = "''PNG''"]
  have calls1: "providerCalls (snd (upscaleImage_POST upscalingEnv ?url ''image_1'' ?size 2560
                  serverWithImage))
       = [\<lparr>image = ''PNG'', scale = Finite 4, face_enhance = False\<rparr>]"
    using routes tok fetched empty by simp
  have calls2: "providerCalls (snd (upscaleWithReplicate upscalingEnv ''1700000000000_image_1.png''
          ''image_1'' ?size 2560 serverWithImage))
       = [\<lparr>image = ''PNG'', scale = Finite 4, face_enhance = False\<rparr>]"
    using routes tok stored empty by simp
  note item = provider_scale_is_clamped
      [where env = upscalingEnv and fileData = photoA and settings = initialSettings and i = 0
         and server = emptyServer and result = ?result and host = "''http://localhost:3000''"
         and p = ?p]
  have reported: "scaleFactor ?p = Some (2560 / 100)"
    using item upscalingEnv_basic upscalingEnv_item by simp
  show ?thesis
    using tok calls1 calls2 reported
    by (simp add: upscalingEnv_route upscalingEnv_sibling upscalingEnv_item)
qed

section \<open>Properties of the archive and the cleanup\<close>

lemma natString_clock5: "natString 1700000005000 = ''1700000005000''"
  by (simp add: natString.simps digitChar_def)

lemma twoRunsServer_history:
  "snd (processImage_POST otherRunEnv
          (Some \<lparr>fname = ''b.jpg'', ftype = ''image/jpeg'', fsize = 2000, fcontent = ''B''\<rparr>)
          (Some otherRunSettings) serverWithImage)
   = twoRunsServer"
  by (simp add: processImage_POST_def processDecoded_def otherRunEnv_def noTokenEnv_def
        otherRunSettings_def serverWithImage_def twoRunsServer_def MAX_FILE_SIZE_def
        writeFile_def natString_clock5 Let_def)

lemma serverWithImage_history:
  "snd (processImage_POST noTokenEnv (Some (file' photoA))
          (Some (ProcessingSettings.extend (initialSettings\<lparr>enableUpscaling := False\<rparr>)
                   (RequestSettings.fields (itemFileName initialSettings 0))))
          emptyServer)
   = serverWithImage"
  by (simp add: processImage_POST_def processDecoded_def noTokenEnv_def
        initialSettings_def emptyServer_def photoA_def itemFileName_def MAX_FILE_SIZE_def
        ProcessingSettings.extend_def RequestSettings.fields_def writeFile_def
        serverWithImage_def natString_small natString_clock0 Let_def)

lemma unlinkAll_never_fails: "(\<forall>f. \<not> fails f) \<Longrightarrow> unlinkAll fails dir = []"
  by (induction dir) simp_all

lemma unlinkAll_dropWhile: "unlinkAll fails dir = dropWhile (\<lambda>f. \<not> fails (fst f)) dir"
  by (induction dir) simp_all

lemma unlinkAll_first_failure:
  assumes "\<forall>g \<in> set before. \<not> fails (fst g)" and "fails (fst f)"
  shows "unlinkAll fails (before @ f # after) = f # after"
  using assms by (induction before) simp_all

text \<open>
  C5, as stated, fails in its second half: the callback deletes whatever is in the two
  directories. After two runs have each processed one image, the archive request of the
  first run schedules the cleanup, and the cleanup deletes the upload and the processed
  image of the second run as well.
\<close>

theorem cleanup_deletes_other_runs_counterexample:
  "snd (processImage_POST otherRunEnv
          (Some \<lparr>fname = ''b.jpg'', ftype = ''image/jpeg'', fsize = 2000, fcontent = ''B''\<rparr>)
          (Some otherRunSettings) serverWithImage)
     = twoRunsServer
   \<and> response (downloadAll_POST noTokenEnv (Some firstRunRequest) twoRunsServer)
       = ArchiveStream [(''image_1.png'', ''PNG'')]
   \<and> timers (downloadAll_POST noTokenEnv (Some firstRunRequest) twoRunsServer) = [(5000, Cleanup)]
   \<and> (''1700000005000_logo_1.png'', ''PNG'') \<in> set (processed twoRunsServer)
   \<and> (''1700000005000_b.jpg'', ''B'') \<in> set (uploads twoRunsServer)
   \<and> processed (runCallback noTokenEnv Cleanup twoRunsServer) = []
   \<and> uploads (runCallback noTokenEnv Cleanup twoRunsServer) = []
   \<and> processed (runCallback noTokenEnv Cleanup twoRunsServer) \<noteq> processed twoRunsServer"
proof -
  have archive: "response (downloadAll_POST noTokenEnv (Some firstRunRequest) twoRunsServer)
       = ArchiveStream [(''image_1.png'', ''PNG'')]"
    by (simp add: downloadAll_POST_def archiveEntry_def firstRunRequest_def twoRunsServer_def
          startsWith_def Let_def)
  have timer: "timers (downloadAll_POST noTokenEnv (Some firstRunRequest) twoRunsServer)
       = [(5000, Cleanup)]"
    by (simp add: downloadAll_POST_def firstRunRequest_def)
  have gone: "processed (runCallback noTokenEnv Cleanup twoRunsServer) = []"
             "uploads (runCallback noTokenEnv Cleanup twoRunsServer) = []"
    by (simp_all add: cleanup_def noTokenEnv_def twoRunsServer_def)
  have there: "(''1700000005000_logo_1.png'', ''PNG'') \<in> set (processed twoRunsServer)"
              "(''1700000005000_b.jpg'', ''B'') \<in> set (uploads twoRunsServer)"
    by (simp_all add: twoRunsServer_def)
  have changed: "processed (runCallback noTokenEnv Cleanup twoRunsServer) \<noteq> processed twoRunsServer"
    using gone by (simp add: twoRunsServer_def)
  from twoRunsServer_history archive timer there gone changed show ?thesis
    by blast
qed

text \<open>
  C5, amended. A request for an archive of at least one image schedules one cleanup,
  with a delay of 5000 ms; a request without images schedules nothing. When the cleanup
  runs, and no \<open>unlink\<close> throws, it leaves \<open>public/uploads\<close> and \<open>public/processed\<close>
  empty, whatever they held and whichever run created it. When an \<open>unlink\<close> throws, the
  file it was called for and the files listed after it in that directory stay, the
  files listed before it are deleted, and the other directory is cleaned all the same:
  what stays of a directory is its listing from the first file whose \<open>unlink\<close> throws.
\<close>

theorem cleanup_scheduled_for_all_files:
  "(imgs \<noteq> [] \<longrightarrow> timers (downloadAll_POST env (Some imgs) server) = [(5000, Cleanup)])
   \<and> timers (downloadAll_POST env (Some []) server) = []
   \<and> timers (downloadAll_POST env None server) = []
   \<and> ((\<forall>f. \<not> ioFails env (Unlink f)) \<longrightarrow>
        uploads (runCallback env Cleanup later) = []
        \<and> processed (runCallback env Cleanup later) = [])
   \<and> uploads (runCallback env Cleanup later)
       = dropWhile (\<lambda>f. \<not> ioFails env (Unlink (fst f))) (uploads later)
   \<and> processed (runCallback env Cleanup later)
       = dropWhile (\<lambda>f. \<not> ioFails env (Unlink (fst f))) (processed later)
   \<and> (uploads later = before @ f # after
       \<and> (\<forall>g \<in> set before. \<not> ioFails env (Unlink (fst g))) \<and> ioFails env (Unlink (fst f))
       \<longrightarrow> uploads (runCallback env Cleanup later) = f # after)
   \<and> (processed later = before @ f # after
       \<and> (\<forall>g \<in> set before. \<not> ioFails env (Unlink (fst g))) \<and> ioFails env (Unlink (fst f))
       \<longrightarrow> processed (runCallback env Cleanup later) = f # after)
   \<and> providerCalls (runCallback env Cleanup later) = providerCalls later"
proof (intro conjI impI)
  assume "imgs \<noteq> []"
  then show "timers (downloadAll_POST env (Some imgs) server) = [(5000, Cleanup)]"
    by (simp add: downloadAll_POST_def)
next
  show "timers (downloadAll_POST env (Some []) server) = []"
    by (simp add: downloadAll_POST_def)
  show "timers (downloadAll_POST env None server) = []"
    by (simp add: downloadAll_POST_def)
next
  assume "\<forall>f. \<not> ioFails env (Unlink f)"
  then show "uploads (runCallback env Cleanup later) = []"
    and "processed (runCallback env Cleanup later) = []"
    by (simp_all add: cleanup_def unlinkAll_never_fails)
next
  show "uploads (runCallback env Cleanup later)
       = dropWhile (\<lambda>f. \<not> ioFails env (Unlink (fst f))) (uploads later)"
    by (simp add: cleanup_def unlinkAll_dropWhile)
  show "processed (runCallback env Cleanup later)
       = dropWhile (\<lambda>f. \<not> ioFails env (Unlink (fst f))) (processed later)"
    by (simp add: cleanup_def unlinkAll_dropWhile)
next
  assume "uploads later = before @ f # after
       \<and> (\<forall>g \<in> set before. \<not> ioFails env (Unlink (fst g))) \<and> ioFails env (Unlink (fst f))"
  then show "uploads (runCallback env Cleanup later) = f # after"
    using unlinkAll_first_failure [of before "\<lambda>f. ioFails env (Unlink f)" f after]
    by (simp add: cleanup_def)
next
  assume "processed later = before @ f # after
       \<and> (\<forall>g \<in> set before. \<not> ioFails env (Unlink (fst g))) \<and> ioFails env (Unlink (fst f))"
  then show "processed (runCallback env Cleanup later) = f # after"
    using unlinkAll_first_failure [of before "\<lambda>f. ioFails env (Unlink f)" f after]
    by (simp add: cleanup_def)
next
  show "providerCalls (runCallback env Cleanup later) = providerCalls later"
    by (simp add: cleanup_def)
qed

theorem cleanup_scheduled_for_all_files_witness:
  "firstRunRequest \<noteq> []
   \<and> (\<forall>f. \<not> ioFails noTokenEnv (Unlink f))
   \<and> timers (downloadAll_POST noTokenEnv (Some firstRunRequest) twoRunsServer) = [(5000, Cleanup)]
   \<and> uploads (runCallback noTokenEnv Cleanup twoRunsServer) = []
   \<and> processed (runCallback noTokenEnv Cleanup twoRunsServer) = []
   \<and> uploads twoRunsServer = [] @ (''1700000000000_a.jpg'', ''A'') # [(''1700000005000_b.jpg'', ''B'')]
   \<and> ioFails lockedUploadEnv (Unlink (fst (''1700000000000_a.jpg'', ''A'')))
   \<and> uploads (runCallback lockedUploadEnv Cleanup twoRunsServer)
       = [(''1700000000000_a.jpg'', ''A''), (''1700000005000_b.jpg'', ''B'')]
   \<and> processed (runCallback lockedUploadEnv Cleanup twoRunsServer) = []"
proof -
  have ne: "firstRunRequest \<noteq> []"
    by (simp add: firstRunRequest_def)
  have io: "\<forall>f. \<not> ioFails noTokenEnv (Unlink f)"
    by (simp add: noTokenEnv_def)
  have listing: "uploads twoRunsServer
                   = [] @ (''1700000000000_a.jpg'', ''A'') # [(''1700000005000_b.jpg'', ''B'')]"
    by (simp add: twoRunsServer_def)
  have locked: "ioFails lockedUploadEnv (Unlink (fst (''1700000000000_a.jpg'', ''A'')))"
    by (simp add: lockedUploadEnv_def)
  have others: "dropWhile (\<lambda>f. \<not> ioFails lockedUploadEnv (Unlink (fst f))) (processed twoRunsServer) = []"
    by (simp add: lockedUploadEnv_def twoRunsServer_def)
  note run = cleanup_scheduled_for_all_files
               [of firstRunRequest noTokenEnv twoRunsServer twoRunsServer]
  note locked_run = cleanup_scheduled_for_all_files
               [where env = lockedUploadEnv and later = twoRunsServer and before = "[]"
                  and f = "(''1700000000000_a.jpg'', ''A'')"
                  and after = "[(''1700000005000_b.jpg'', ''B'')]"]
  have 1: "timers (downloadAll_POST noTokenEnv (Some firstRunRequest) twoRunsServer) = [(5000, Cleanup)]"
    using run ne by blast
  have 2: "uploads (runCallback noTokenEnv Cleanup twoRunsServer) = []"
          "processed (runCallback noTokenEnv Cleanup twoRunsServer) = []"
    using run io by blast+
  have 3: "uploads (runCallback lockedUploadEnv Cleanup twoRunsServer)
       = [(''1700000000000_a.jpg'', ''A''), (''1700000005000_b.jpg'', ''B'')]"
    using locked_run listing locked by simp
  have 4: "processed (runCallback lockedUploadEnv Cleanup twoRunsServer) = []"
    using locked_run others by simp
  from ne io 1 2 listing locked 3 4 show ?thesis
    by blast
qed

end
